theory Spec2Isabelle
  imports Complex_Main "HOL-Library.Word"
begin

section \<open>Telemetry relay: wire codec, receiver registry, modem drivers\<close>

text \<open>
  A shallow embedding of \<^verbatim>\<open>receiver.py\<close>, \<^verbatim>\<open>temp_sim7080g.py\<close> and
  \<^verbatim>\<open>temp_sim868.py\<close>.

  Conventions of the embedding.
  \<^item> Python \<^verbatim>\<open>float\<close> values (temperatures, humidity, \<^verbatim>\<open>time.time()\<close>) are exact
    rationals: the arithmetic of the model has no binary rounding, and there is no NaN
    and no infinity.
  \<^item> \<^verbatim>\<open>bytes\<close> are lists of 8-bit words; \<^verbatim>\<open>str\<close> is \<open>string\<close>.
  \<^item> An exception is a value \<open>Inl e\<close> of a sum type; a function with effects takes the
    state of the world and returns the new one.
  \<^item> \<^verbatim>\<open>print\<close> appends a line to a console kept in the state.
\<close>

type_synonym byte = "8 word"
type_synonym bytes = "byte list"

datatype exn =
    KeyError string
  | IndexError
  | ValueError
  | UnicodeError
  | OSError

subsection \<open>Telemetry codec\<close>

text \<open>\<^verbatim>\<open>int(x)\<close> on a float: truncation toward zero.\<close>

definition py_int :: "rat \<Rightarrow> int" where
  "py_int x = (if 0 \<le> x then \<lfloor>x\<rfloor> else \<lceil>x\<rceil>)"

text \<open>
  \<^verbatim>\<open>struct.pack(">h", n)\<close> as MicroPython (the runtime of both sender scripts, which
  import \<^verbatim>\<open>machine\<close> and \<^verbatim>\<open>ubinascii\<close>) performs it: the two low-order bytes of
  \<open>n\<close>, most significant first, with no range check.
\<close>

definition pack_h :: "int \<Rightarrow> bytes" where
  "pack_h n = [word_of_int (n div 256), word_of_int n]"

text \<open>\<^verbatim>\<open>struct.unpack(">h", ...)\<close>: big-endian, two's complement.\<close>

definition unpack_h :: "byte \<Rightarrow> byte \<Rightarrow> int" where
  "unpack_h hi lo =
     (let u = uint hi * 256 + uint lo in if 32768 \<le> u then u - 65536 else u)"

text \<open>\<^verbatim>\<open>encode_sensor\<close> (identical in both sender scripts).\<close>

definition encode_sensor :: "rat \<Rightarrow> rat \<Rightarrow> rat \<Rightarrow> bytes" where
  "encode_sensor temp hum cpu_temp =
     (let temp_int = py_int (temp * 100);
          hum_int = py_int (hum * 10);
          cpu_int = py_int (cpu_temp * 100)
      in pack_h temp_int @ pack_h hum_int @ pack_h cpu_int)"

text \<open>
  The decoding part of \<^verbatim>\<open>on_message\<close> (receiver.py, lines 55 to 64): the length
  check, \<^verbatim>\<open>struct.unpack(">hhh", payload)\<close> and the three divisions. The length check
  returns early; that early return is the value \<open>Inl (MalformedFrame n)\<close>.
\<close>

datatype frame_error = MalformedFrame nat

fun unpack_hhh :: "bytes \<Rightarrow> int \<times> int \<times> int" where
  "unpack_hhh [b0, b1, b2, b3, b4, b5] = (unpack_h b0 b1, unpack_h b2 b3, unpack_h b4 b5)"
| "unpack_hhh _ = (0, 0, 0)"

definition decode_payload :: "bytes \<Rightarrow> frame_error + rat \<times> rat \<times> rat" where
  "decode_payload payload =
     (if length payload \<noteq> 6 then Inl (MalformedFrame (length payload))
      else (case unpack_hhh payload of (temp_int, hum_int, cpu_int) \<Rightarrow>
              Inr (of_int temp_int / 100, of_int hum_int / 10, of_int cpu_int / 100)))"

text \<open>The value an int16 field holds after wrapping modulo \<open>2 ^ 16\<close>.\<close>

definition wrap16 :: "int \<Rightarrow> int" where
  "wrap16 n = (n + 32768) mod 65536 - 32768"




subsection \<open>Small pieces of the Python runtime\<close>

text \<open>\<^verbatim>\<open>s.split(sep)\<close> for a one-character separator; the result is never empty.\<close>

fun split_on :: "char \<Rightarrow> string \<Rightarrow> string list" where
  "split_on sep [] = [[]]"
| "split_on sep (c # cs) =
     (if c = sep then [] # split_on sep cs
      else (case split_on sep cs of
              [] \<Rightarrow> [[c]]
            | p # ps \<Rightarrow> (c # p) # ps))"

text \<open>\<^verbatim>\<open>xs[i]\<close> for \<open>i \<ge> 0\<close>: \<open>None\<close> stands for IndexError.\<close>

fun index_opt :: "'a list \<Rightarrow> nat \<Rightarrow> 'a option" where
  "index_opt [] i = None"
| "index_opt (x # xs) 0 = Some x"
| "index_opt (x # xs) (Suc i) = index_opt xs i"

text \<open>\<^verbatim>\<open>s.strip()\<close>: leading and trailing ASCII whitespace removed.\<close>

definition is_space :: "char \<Rightarrow> bool" where
  "is_space c \<longleftrightarrow> c \<in> set [CHR '' '', CHR 0x09, CHR 0x0A, CHR 0x0B, CHR 0x0C, CHR 0x0D]"

definition strip :: "string \<Rightarrow> string" where
  "strip s = rev (dropWhile is_space (rev (dropWhile is_space s)))"

text \<open>\<^verbatim>\<open>needle in haystack\<close> on byte strings.\<close>

fun bytes_in :: "string \<Rightarrow> string \<Rightarrow> bool" where
  "bytes_in needle [] = (needle = [])"
| "bytes_in needle (c # cs) =
     (take (length needle) (c # cs) = needle \<or> bytes_in needle cs)"

text \<open>\<^verbatim>\<open>str(n)\<close> for a non-negative integer.\<close>

definition digit_char :: "nat \<Rightarrow> char" where
  "digit_char d = char_of (48 + d)"

function str_nat :: "nat \<Rightarrow> string" where
  "str_nat n = (if n < 10 then [digit_char n] else str_nat (n div 10) @ [digit_char (n mod 10)])"
  by pat_completeness auto
termination
  by (relation "measure id") auto

text \<open>
  \<^verbatim>\<open>template.format(**kwargs)\<close> for a template whose replacement fields are plain
  names, \<^verbatim>\<open>{NAME}\<close>. The second argument is the name of the field being read, if one
  is open. Fields are substituted from left to right; a name that is not among the
  keyword arguments raises \<^verbatim>\<open>KeyError(name)\<close>.
\<close>

fun format_go :: "(string \<times> string) list \<Rightarrow> string option \<Rightarrow> string \<Rightarrow> exn + string" where
  "format_go kwargs None [] = Inr []"
| "format_go kwargs (Some name) [] = Inl ValueError"
| "format_go kwargs None (c # cs) =
     (if c = CHR ''{'' then format_go kwargs (Some []) cs
      else if c = CHR ''}'' then Inl ValueError
      else (case format_go kwargs None cs of
              Inl e \<Rightarrow> Inl e
            | Inr r \<Rightarrow> Inr (c # r)))"
| "format_go kwargs (Some name) (c # cs) =
     (if c = CHR ''}'' then
        (case map_of kwargs name of
           None \<Rightarrow> Inl (KeyError name)
         | Some v \<Rightarrow>
             (case format_go kwargs None cs of
                Inl e \<Rightarrow> Inl e
              | Inr r \<Rightarrow> Inr (v @ r)))
      else format_go kwargs (Some (name @ [c])) cs)"

definition py_format :: "string \<Rightarrow> (string \<times> string) list \<Rightarrow> exn + string" where
  "py_format template kwargs = format_go kwargs None template"

text \<open>
  A \<^verbatim>\<open>dict\<close> with string keys, in insertion order: assignment to a key that is present
  replaces the value in place, assignment to a new key appends.
\<close>

fun dict_set :: "string \<Rightarrow> 'v \<Rightarrow> (string \<times> 'v) list \<Rightarrow> (string \<times> 'v) list" where
  "dict_set k v [] = [(k, v)]"
| "dict_set k v ((k', v') # kvs) =
     (if k' = k then (k, v) # kvs else (k', v') # dict_set k v kvs)"

subsection \<open>The sender's world: clock, UART, sensors, console\<close>

text \<open>
  The sender scripts talk to a modem over \<^verbatim>\<open>SIM_UART\<close>, read a DHT22 and the ADC, sleep
  and print. The world they run in:
  \<^item> \<open>ticks\<close> is \<^verbatim>\<open>time.ticks_ms()\<close>; only \<^verbatim>\<open>time.sleep\<close> advances it, and it does not
    wrap around;
  \<^item> \<open>rx_buf\<close> holds the bytes the UART has received and the program has not read;
    \<open>rx_script\<close> lists what the modem delivers during each successive 100 ms of
    sleep (nothing once the script is used up);
  \<^item> \<open>uart_tx\<close> is everything written to the UART; \<open>uart_faults\<close> says, for each
    successive \<^verbatim>\<open>SIM_UART.write\<close>, whether it raises;
  \<^item> \<open>dht_script\<close> lists the successive DHT22 measurements (\<open>None\<close>: the driver
    raises; an exhausted script raises as well), \<open>adc_script\<close> the successive
    \<^verbatim>\<open>read_u16()\<close> values of the temperature channel (0 once used up);
  \<^item> \<open>console\<close> is what has been printed.
\<close>

datatype uart_out = Text string | Binary bytes

datatype line =
    Initializing
  | Ready
  | Network_OK int
  | Waiting_for_network
  | Network_lost
  | MQTT_connected
  | MQTT_connect_failed exn
  | Published bytes
  | Publish_failed exn
  | Failed_to_publish_after_3_attempts
  | Sensor_read_error exn

record world =
  ticks :: nat
  rx_buf :: string
  rx_script :: "string list"
  uart_tx :: "uart_out list"
  uart_faults :: "bool list"
  dht_script :: "(rat \<times> rat) option list"
  adc_script :: "nat list"
  console :: "line list"

text \<open>
  What the scripts take from their runtime and hardware without defining it:
  \<^verbatim>\<open>bytes.decode()\<close> (\<open>None\<close>: UnicodeError), \<^verbatim>\<open>int(str)\<close> (\<open>None\<close>: ValueError) and
  \<^verbatim>\<open>DEVICE_ID\<close>, the hex form of \<^verbatim>\<open>machine.unique_id()\<close>.
\<close>

record runtime =
  bytes_decode :: "string \<Rightarrow> string option"
  str_to_int :: "string \<Rightarrow> int option"
  DEVICE_ID :: string

definition print :: "line \<Rightarrow> world \<Rightarrow> world" where
  "print l w = w\<lparr>console := console w @ [l]\<rparr>"

text \<open>\<^verbatim>\<open>time.sleep(ms / 1000)\<close>, for \<open>ms\<close> a multiple of 100.\<close>

definition py_sleep :: "nat \<Rightarrow> world \<Rightarrow> world" where
  "py_sleep ms w =
     w\<lparr>ticks := ticks w + ms,
       rx_buf := rx_buf w @ concat (take (ms div 100) (rx_script w)),
       rx_script := drop (ms div 100) (rx_script w)\<rparr>"

definition uart_write :: "uart_out \<Rightarrow> world \<Rightarrow> (exn + unit) \<times> world" where
  "uart_write x w =
     (case uart_faults w of
        [] \<Rightarrow> (Inr (), w\<lparr>uart_tx := uart_tx w @ [x]\<rparr>)
      | fault # fs \<Rightarrow>
          (if fault then (Inl OSError, w\<lparr>uart_faults := fs\<rparr>)
           else (Inr (), w\<lparr>uart_tx := uart_tx w @ [x], uart_faults := fs\<rparr>)))"

definition uart_any :: "world \<Rightarrow> nat" where
  "uart_any w = length (rx_buf w)"

definition uart_read :: "nat \<Rightarrow> world \<Rightarrow> string \<times> world" where
  "uart_read n w = (take n (rx_buf w), w\<lparr>rx_buf := drop n (rx_buf w)\<rparr>)"

definition CRLF :: string where
  "CRLF = [CHR 0x0D, CHR 0x0A]"

subsection \<open>AT transport: \<^verbatim>\<open>send_at\<close>\<close>

text \<open>
  The \<^verbatim>\<open>while\<close> loop of \<^verbatim>\<open>send_at\<close>. Every pass that does not leave the loop sleeps
  100 ms, so the loop ends once \<open>timeout\<close> ms have gone by.
\<close>

function send_at_loop :: "nat \<Rightarrow> nat \<Rightarrow> string \<Rightarrow> world \<Rightarrow> string \<times> world" where
  "send_at_loop t_start timeout response w =
     (if int (ticks w) - int t_start < int timeout then
        (let r = (if uart_any w \<noteq> 0 then uart_read (uart_any w) w else ([], w));
             response1 = response @ fst r
         in if bytes_in ''OK'' response1 \<or> bytes_in ''ERROR'' response1
            then (response1, snd r)
            else send_at_loop t_start timeout response1 (py_sleep 100 (snd r)))
      else (response, w))"
  by pat_completeness auto
termination
  by (relation "measure (\<lambda>(t_start, timeout, response, w).
        nat (int t_start + int timeout - int (ticks w)))")
     (auto simp: py_sleep_def uart_read_def)

definition send_at :: "runtime \<Rightarrow> string \<Rightarrow> nat \<Rightarrow> world \<Rightarrow> (exn + string) \<times> world" where
  "send_at rt cmd timeout w =
     (case uart_write (Text (cmd @ CRLF)) w of
        (Inl e, w1) \<Rightarrow> (Inl e, w1)
      | (Inr _, w1) \<Rightarrow>
          (case send_at_loop (ticks w1) timeout [] w1 of
             (response, w2) \<Rightarrow>
               (case bytes_decode rt response of
                  None \<Rightarrow> (Inl UnicodeError, w2)
                | Some s \<Rightarrow> (Inr s, w2))))"

text \<open>
  Several \<^verbatim>\<open>send_at\<close> calls one after the other, their results dropped, as in the
  bodies of the init and connect functions: the first one that raises ends the sequence.
\<close>

fun send_all :: "runtime \<Rightarrow> nat \<Rightarrow> string list \<Rightarrow> world \<Rightarrow> (exn + unit) \<times> world" where
  "send_all rt timeout [] w = (Inr (), w)"
| "send_all rt timeout (cmd # cmds) w =
     (case send_at rt cmd timeout w of
        (Inl e, w1) \<Rightarrow> (Inl e, w1)
      | (Inr _, w1) \<Rightarrow> send_all rt timeout cmds w1)"

subsection \<open>Sensors and constants common to both sender scripts\<close>

definition read_sensor :: "world \<Rightarrow> (rat \<times> rat) option \<times> world" where
  "read_sensor w =
     (case dht_script w of
        [] \<Rightarrow> (None, print (Sensor_read_error OSError) w)
      | None # rest \<Rightarrow> (None, print (Sensor_read_error OSError) (w\<lparr>dht_script := rest\<rparr>))
      | Some (temp, hum) # rest \<Rightarrow> (Some (temp, hum), w\<lparr>dht_script := rest\<rparr>))"

definition read_cpu_temp :: "world \<Rightarrow> rat \<times> world" where
  "read_cpu_temp w =
     (let (u16, w1) = (case adc_script w of
                         [] \<Rightarrow> (0, w)
                       | u # rest \<Rightarrow> (u, w\<lparr>adc_script := rest\<rparr>));
          reading = of_nat u16 * (33 / 10) / 65535;
          temp_c = 27 - (reading - 706 / 1000) / (1721 / 1000000)
      in (temp_c, w1))"

definition CHECK_INTERVAL :: nat where
  "CHECK_INTERVAL = 10"

definition MQTT_BROKER :: string where
  "MQTT_BROKER = ''MQTT_URL_ADDRESS''"

definition MQTT_PORT :: nat where
  "MQTT_PORT = 1883"

definition MQTT_TOPIC :: "runtime \<Rightarrow> string" where
  "MQTT_TOPIC rt = ''temperature/'' @ DEVICE_ID rt"

text \<open>The variables \<^verbatim>\<open>last_temp\<close>, \<^verbatim>\<open>last_hum\<close> (and \<^verbatim>\<open>last_cpu\<close>) of \<^verbatim>\<open>main\<close>.\<close>

record last_sent =
  last_temp :: "rat option"
  last_hum :: "rat option"

record last_sent_cpu = last_sent +
  last_cpu :: "rat option"

subsection \<open>\<^verbatim>\<open>temp_sim7080g.py\<close>: the NB-IoT sender\<close>

text \<open>
  The unbounded \<^verbatim>\<open>while True\<close> loops of \<^verbatim>\<open>nb_iot_wait_network\<close> and
  \<^verbatim>\<open>mqtt_connect\<close> take a bound on the number of passes (\<open>fuel\<close>); \<open>None\<close> says the
  loop was still running when the bound was reached.
\<close>

text \<open>The \<^verbatim>\<open>try\<close> body of \<^verbatim>\<open>nb_iot_check_signal\<close>.\<close>

definition parse_rssi :: "runtime \<Rightarrow> string \<Rightarrow> exn + int" where
  "parse_rssi rt resp =
     (case index_opt (split_on CHR '':'' resp) (Suc 0) of
        None \<Rightarrow> Inl IndexError
      | Some field \<Rightarrow>
          (case index_opt (split_on CHR '','' field) 0 of
             None \<Rightarrow> Inl IndexError
           | Some p \<Rightarrow>
               (case str_to_int rt (strip p) of
                  None \<Rightarrow> Inl ValueError
                | Some rssi \<Rightarrow> Inr rssi)))"

definition nb_iot_check_signal :: "runtime \<Rightarrow> world \<Rightarrow> (exn + int) \<times> world" where
  "nb_iot_check_signal rt w =
     (case send_at rt ''AT+CSQ'' 2000 w of
        (Inl e, w1) \<Rightarrow> (Inl e, w1)
      | (Inr resp, w1) \<Rightarrow>
          (case parse_rssi rt resp of
             Inl _ \<Rightarrow> (Inr 0, w1)
           | Inr rssi \<Rightarrow> (Inr rssi, w1)))"

definition nb_iot_init :: "runtime \<Rightarrow> world \<Rightarrow> (exn + unit) \<times> world" where
  \<open>nb_iot_init rt w =
     (case send_all rt 2000
             [''AT'', ''AT+CFUN=1'', ''AT+CGATT=1'', ''AT+CGDCONT=1,"IP","internet"'']
             (print Initializing w) of
        (Inl e, w1) \<Rightarrow> (Inl e, w1)
      | (Inr _, w1) \<Rightarrow> (Inr (), print Ready (py_sleep 2000 w1)))\<close>

fun nb_iot_wait_network :: "nat \<Rightarrow> runtime \<Rightarrow> world \<Rightarrow> ((exn + unit) \<times> world) option" where
  "nb_iot_wait_network 0 rt w = None"
| "nb_iot_wait_network (Suc fuel) rt w =
     (case nb_iot_check_signal rt w of
        (Inl e, w1) \<Rightarrow> Some (Inl e, w1)
      | (Inr rssi, w1) \<Rightarrow>
          (if 0 < rssi \<and> rssi < 99 then Some (Inr (), print (Network_OK rssi) w1)
           else nb_iot_wait_network fuel rt (py_sleep 5000 (print Waiting_for_network w1))))"

definition sim7080g_connect_cmds :: "runtime \<Rightarrow> string list" where
  \<open>sim7080g_connect_cmds rt =
     [''AT+SMCONN=0'',
      ''AT+SMCONF="CLIENTID","'' @ DEVICE_ID rt @ ''"'',
      ''AT+SMCONF="URL","'' @ MQTT_BROKER @ ''",'' @ str_nat MQTT_PORT,
      ''AT+SMCONF="KEEPALIVE",60'',
      ''AT+SMCONN'']\<close>

fun sim7080g_mqtt_connect :: "nat \<Rightarrow> runtime \<Rightarrow> world \<Rightarrow> world option" where
  "sim7080g_mqtt_connect 0 rt w = None"
| "sim7080g_mqtt_connect (Suc fuel) rt w =
     (case send_all rt 2000 (sim7080g_connect_cmds rt) w of
        (Inr _, w1) \<Rightarrow> Some (print MQTT_connected w1)
      | (Inl e, w1) \<Rightarrow>
          sim7080g_mqtt_connect fuel rt (py_sleep 5000 (print (MQTT_connect_failed e) w1)))"

text \<open>The \<^verbatim>\<open>try\<close> body of \<^verbatim>\<open>mqtt_publish\<close>, up to its \<^verbatim>\<open>return True\<close>.\<close>

definition sim7080g_publish_try ::
  "runtime \<Rightarrow> string \<Rightarrow> bytes \<Rightarrow> world \<Rightarrow> (exn + unit) \<times> world" where
  \<open>sim7080g_publish_try rt topic data_bytes w =
     (case send_at rt (''AT+SMPUB="'' @ topic @ ''",'' @ str_nat (length data_bytes) @ '',1,0'')
             5000 w of
        (Inl e, w1) \<Rightarrow> (Inl e, w1)
      | (Inr _, w1) \<Rightarrow>
          (case uart_write (Binary data_bytes) w1 of
             (Inl e, w2) \<Rightarrow> (Inl e, w2)
           | (Inr _, w2) \<Rightarrow> (Inr (), print (Published data_bytes) w2)))\<close>

text \<open>\<^verbatim>\<open>for _ in range(3)\<close>: the first argument counts the passes still to make.\<close>

fun sim7080g_publish_loop ::
  "nat \<Rightarrow> nat \<Rightarrow> runtime \<Rightarrow> string \<Rightarrow> bytes \<Rightarrow> world \<Rightarrow> (bool \<times> world) option" where
  "sim7080g_publish_loop 0 fuel rt topic data_bytes w =
     Some (False, print Failed_to_publish_after_3_attempts w)"
| "sim7080g_publish_loop (Suc k) fuel rt topic data_bytes w =
     (case sim7080g_publish_try rt topic data_bytes w of
        (Inr _, w1) \<Rightarrow> Some (True, w1)
      | (Inl e, w1) \<Rightarrow>
          (case sim7080g_mqtt_connect fuel rt (print (Publish_failed e) w1) of
             None \<Rightarrow> None
           | Some w2 \<Rightarrow> sim7080g_publish_loop k fuel rt topic data_bytes (py_sleep 2000 w2)))"

definition sim7080g_mqtt_publish ::
  "nat \<Rightarrow> runtime \<Rightarrow> string \<Rightarrow> bytes \<Rightarrow> world \<Rightarrow> (bool \<times> world) option" where
  "sim7080g_mqtt_publish fuel rt topic data_bytes w =
     sim7080g_publish_loop 3 fuel rt topic data_bytes w"

text \<open>
  \<^verbatim>\<open>nb_iot_init(); nb_iot_wait_network(); mqtt_connect()\<close>: the three calls that open
  \<^verbatim>\<open>main\<close> and that its loop repeats when the signal is lost.
\<close>

definition sim7080g_bring_up :: "nat \<Rightarrow> runtime \<Rightarrow> world \<Rightarrow> ((exn + unit) \<times> world) option" where
  "sim7080g_bring_up fuel rt w =
     (case nb_iot_init rt w of
        (Inl e, w1) \<Rightarrow> Some (Inl e, w1)
      | (Inr _, w1) \<Rightarrow>
          (case nb_iot_wait_network fuel rt w1 of
             None \<Rightarrow> None
           | Some (Inl e, w2) \<Rightarrow> Some (Inl e, w2)
           | Some (Inr _, w2) \<Rightarrow>
               (case sim7080g_mqtt_connect fuel rt w2 of
                  None \<Rightarrow> None
                | Some w3 \<Rightarrow> Some (Inr (), w3))))"

text \<open>
  The second half of a pass of the main loop, from \<^verbatim>\<open>read_sensor()\<close> to the final
  sleep. The result of \<^verbatim>\<open>mqtt_publish\<close> is dropped, as in the source.
\<close>

definition sim7080g_read_publish ::
  "nat \<Rightarrow> runtime \<Rightarrow> last_sent_cpu \<Rightarrow> world \<Rightarrow> (last_sent_cpu \<times> world) option" where
  "sim7080g_read_publish fuel rt st w =
     (case read_sensor w of (reading, w1) \<Rightarrow>
      (case read_cpu_temp w1 of (cpu_temp, w2) \<Rightarrow>
       (case reading of
          None \<Rightarrow> Some (st, py_sleep (CHECK_INTERVAL * 1000) w2)
        | Some (temp, hum) \<Rightarrow>
            (if Some temp \<noteq> last_temp st \<or> Some hum \<noteq> last_hum st then
               (case sim7080g_mqtt_publish fuel rt (MQTT_TOPIC rt)
                       (encode_sensor temp hum cpu_temp) w2 of
                  None \<Rightarrow> None
                | Some (_, w3) \<Rightarrow>
                    Some (st\<lparr>last_temp := Some temp, last_hum := Some hum,
                              last_cpu := Some cpu_temp\<rparr>,
                          py_sleep (CHECK_INTERVAL * 1000) w3))
             else Some (st, py_sleep (CHECK_INTERVAL * 1000) w2)))))"

text \<open>One pass of the \<^verbatim>\<open>while True\<close> loop of \<^verbatim>\<open>main\<close>.\<close>

definition sim7080g_cycle ::
  "nat \<Rightarrow> runtime \<Rightarrow> last_sent_cpu \<Rightarrow> world \<Rightarrow> ((exn + last_sent_cpu) \<times> world) option" where
  "sim7080g_cycle fuel rt st w =
     (case nb_iot_check_signal rt w of
        (Inl e, w1) \<Rightarrow> Some (Inl e, w1)
      | (Inr rssi, w1) \<Rightarrow>
          (case (if rssi = 0 \<or> rssi = 99
                 then sim7080g_bring_up fuel rt (print Network_lost w1)
                 else Some (Inr (), w1)) of
             None \<Rightarrow> None
           | Some (Inl e, w2) \<Rightarrow> Some (Inl e, w2)
           | Some (Inr _, w2) \<Rightarrow>
               (case sim7080g_read_publish fuel rt st w2 of
                  None \<Rightarrow> None
                | Some (st', w3) \<Rightarrow> Some (Inr st', w3))))"

text \<open>\<open>n\<close> passes of the loop; an exception that escapes a pass ends the program.\<close>

fun sim7080g_loop ::
  "nat \<Rightarrow> nat \<Rightarrow> runtime \<Rightarrow> last_sent_cpu \<Rightarrow> world \<Rightarrow> ((exn + last_sent_cpu) \<times> world) option" where
  "sim7080g_loop 0 fuel rt st w = Some (Inr st, w)"
| "sim7080g_loop (Suc n) fuel rt st w =
     (case sim7080g_cycle fuel rt st w of
        None \<Rightarrow> None
      | Some (Inl e, w1) \<Rightarrow> Some (Inl e, w1)
      | Some (Inr st', w1) \<Rightarrow> sim7080g_loop n fuel rt st' w1)"

definition sim7080g_main ::
  "nat \<Rightarrow> nat \<Rightarrow> runtime \<Rightarrow> world \<Rightarrow> ((exn + last_sent_cpu) \<times> world) option" where
  "sim7080g_main n fuel rt w =
     (case sim7080g_bring_up fuel rt w of
        None \<Rightarrow> None
      | Some (Inl e, w1) \<Rightarrow> Some (Inl e, w1)
      | Some (Inr _, w1) \<Rightarrow>
          sim7080g_loop n fuel rt
            \<lparr>last_temp = None, last_hum = None, last_cpu = None\<rparr> w1)"

subsection \<open>\<^verbatim>\<open>temp_sim868.py\<close>: the 2G/GPRS sender\<close>

text \<open>Here \<^verbatim>\<open>send_at\<close> has the default timeout 3000.\<close>

definition gprs_init :: "runtime \<Rightarrow> world \<Rightarrow> (exn + unit) \<times> world" where
  \<open>gprs_init rt w =
     (case send_all rt 3000
             [''AT'', ''AT+CFUN=1'', ''AT+CGATT=1'',
              ''AT+SAPBR=3,1,"CONTYPE","GPRS"'',
              ''AT+SAPBR=3,1,"APN","internet"'',
              ''AT+SAPBR=1,1'', ''AT+SAPBR=2,1'']
             (print Initializing w) of
        (Inl e, w1) \<Rightarrow> (Inl e, w1)
      | (Inr _, w1) \<Rightarrow> (Inr (), print Ready w1))\<close>

definition sim868_connect_cmds :: "runtime \<Rightarrow> string list" where
  \<open>sim868_connect_cmds rt =
     [''AT+CMQTTDISC=0'',
      ''AT+CMQTTSTART=0'',
      ''AT+CMQTTACCQ=0,"'' @ DEVICE_ID rt @ ''"'',
      ''AT+CMQTTCONNECT=0,"tcp://'' @ MQTT_BROKER @ '':'' @ str_nat MQTT_PORT @ ''",60,1'']\<close>

fun sim868_mqtt_connect :: "nat \<Rightarrow> runtime \<Rightarrow> world \<Rightarrow> world option" where
  "sim868_mqtt_connect 0 rt w = None"
| "sim868_mqtt_connect (Suc fuel) rt w =
     (case send_all rt 3000 (sim868_connect_cmds rt) w of
        (Inr _, w1) \<Rightarrow> Some (print MQTT_connected w1)
      | (Inl e, w1) \<Rightarrow>
          sim868_mqtt_connect fuel rt (py_sleep 5000 (print (MQTT_connect_failed e) w1)))"

definition sim868_publish_try ::
  "runtime \<Rightarrow> string \<Rightarrow> bytes \<Rightarrow> world \<Rightarrow> (exn + unit) \<times> world" where
  \<open>sim868_publish_try rt topic data_bytes w =
     (case send_all rt 3000
             [''AT+CMQTTTOPIC=0,"'' @ topic @ ''",'' @ str_nat (length topic),
              ''AT+CMQTTPAYLOAD=0,'' @ str_nat (length data_bytes)] w of
        (Inl e, w1) \<Rightarrow> (Inl e, w1)
      | (Inr _, w1) \<Rightarrow>
          (case uart_write (Binary data_bytes) w1 of
             (Inl e, w2) \<Rightarrow> (Inl e, w2)
           | (Inr _, w2) \<Rightarrow>
               (case send_at rt ''AT+CMQTTPUB=0,1,60'' 3000 w2 of
                  (Inl e, w3) \<Rightarrow> (Inl e, w3)
                | (Inr _, w3) \<Rightarrow> (Inr (), print (Published data_bytes) w3))))\<close>

fun sim868_publish_loop ::
  "nat \<Rightarrow> nat \<Rightarrow> runtime \<Rightarrow> string \<Rightarrow> bytes \<Rightarrow> world \<Rightarrow> (bool \<times> world) option" where
  "sim868_publish_loop 0 fuel rt topic data_bytes w =
     Some (False, print Failed_to_publish_after_3_attempts w)"
| "sim868_publish_loop (Suc k) fuel rt topic data_bytes w =
     (case sim868_publish_try rt topic data_bytes w of
        (Inr _, w1) \<Rightarrow> Some (True, w1)
      | (Inl e, w1) \<Rightarrow>
          (case sim868_mqtt_connect fuel rt (print (Publish_failed e) w1) of
             None \<Rightarrow> None
           | Some w2 \<Rightarrow> sim868_publish_loop k fuel rt topic data_bytes (py_sleep 2000 w2)))"

definition sim868_mqtt_publish ::
  "nat \<Rightarrow> runtime \<Rightarrow> string \<Rightarrow> bytes \<Rightarrow> world \<Rightarrow> (bool \<times> world) option" where
  "sim868_mqtt_publish fuel rt topic data_bytes w =
     sim868_publish_loop 3 fuel rt topic data_bytes w"

text \<open>One pass of the \<^verbatim>\<open>while True\<close> loop of \<^verbatim>\<open>main\<close>; it never raises.\<close>

definition sim868_cycle ::
  "nat \<Rightarrow> runtime \<Rightarrow> last_sent \<Rightarrow> world \<Rightarrow> (last_sent \<times> world) option" where
  "sim868_cycle fuel rt st w =
     (case read_sensor w of (reading, w1) \<Rightarrow>
      (case read_cpu_temp w1 of (cpu_temp, w2) \<Rightarrow>
       (case reading of
          None \<Rightarrow> Some (st, py_sleep (CHECK_INTERVAL * 1000) w2)
        | Some (temp, hum) \<Rightarrow>
            (if Some temp \<noteq> last_temp st \<or> Some hum \<noteq> last_hum st then
               (case sim868_mqtt_publish fuel rt (MQTT_TOPIC rt)
                       (encode_sensor temp hum cpu_temp) w2 of
                  None \<Rightarrow> None
                | Some (_, w3) \<Rightarrow>
                    Some (st\<lparr>last_temp := Some temp, last_hum := Some hum\<rparr>,
                          py_sleep (CHECK_INTERVAL * 1000) w3))
             else Some (st, py_sleep (CHECK_INTERVAL * 1000) w2)))))"

fun sim868_loop ::
  "nat \<Rightarrow> nat \<Rightarrow> runtime \<Rightarrow> last_sent \<Rightarrow> world \<Rightarrow> (last_sent \<times> world) option" where
  "sim868_loop 0 fuel rt st w = Some (st, w)"
| "sim868_loop (Suc n) fuel rt st w =
     (case sim868_cycle fuel rt st w of
        None \<Rightarrow> None
      | Some (st', w1) \<Rightarrow> sim868_loop n fuel rt st' w1)"

definition sim868_main ::
  "nat \<Rightarrow> nat \<Rightarrow> runtime \<Rightarrow> world \<Rightarrow> ((exn + last_sent) \<times> world) option" where
  "sim868_main n fuel rt w =
     (case gprs_init rt w of
        (Inl e, w1) \<Rightarrow> Some (Inl e, w1)
      | (Inr _, w1) \<Rightarrow>
          (case sim868_mqtt_connect fuel rt w1 of
             None \<Rightarrow> None
           | Some w2 \<Rightarrow>
               (case sim868_loop n fuel rt \<lparr>last_temp = None, last_hum = None\<rparr> w2 of
                  None \<Rightarrow> None
                | Some (st, w3) \<Rightarrow> Some (Inr st, w3))))"

subsection \<open>\<^verbatim>\<open>receiver.py\<close>: registry and throttled forwarder\<close>

text \<open>
  The values of the dictionary \<^verbatim>\<open>last_data\<close>: one record per device, with the five
  keys \<^verbatim>\<open>on_message\<close> writes.
\<close>

record device_data =
  temp :: rat
  hum :: rat
  cpu :: rat
  last_mqtt :: rat
  last_http :: rat

datatype receiver_line =
    Invalid_payload_length string nat
  | HTTP_sent string rat rat rat nat
  | HTTP_request_failed string exn

text \<open>
  The state of the receiver process: \<^verbatim>\<open>last_data\<close>, what it has printed, and the URLs
  it has passed to \<^verbatim>\<open>requests.get\<close>, in order.
\<close>

record receiver =
  last_data :: "(string \<times> device_data) list"
  printed :: "receiver_line list"
  requested :: "string list"

text \<open>
  What the receiver takes from outside: how a float prints inside \<^verbatim>\<open>str.format\<close>, and
  the answer of \<^verbatim>\<open>requests.get\<close> to the \<open>n\<close>-th request, a status code or an
  exception.
\<close>

record outside =
  float_str :: "rat \<Rightarrow> string"
  requests_get :: "nat \<Rightarrow> string \<Rightarrow> exn + nat"

definition HTTP_URL_TEMPLATE :: string where
  "HTTP_URL_TEMPLATE =
     ''http://{ADDRESS}/?devicerpi={DEVICE_ID}&cputemp={CPUTEMP}&temp={TEMP}&hum={HUM}&press=0''"

definition UPDATE_INTERVAL :: rat where
  "UPDATE_INTERVAL = 60"

text \<open>
  \<^verbatim>\<open>send_http\<close>. The call of \<^verbatim>\<open>str.format\<close> stands before the \<^verbatim>\<open>try\<close>, so what it
  raises leaves the function; what \<^verbatim>\<open>requests.get\<close> raises is caught and printed.
\<close>

definition send_http ::
  "outside \<Rightarrow> string \<Rightarrow> rat \<Rightarrow> rat \<Rightarrow> rat \<Rightarrow> receiver \<Rightarrow> (exn + unit) \<times> receiver" where
  "send_http out device_id t h cpu_temp s =
     (case py_format HTTP_URL_TEMPLATE
             [(''DEVICE_ID'', device_id),
              (''TEMP'', float_str out t),
              (''HUM'', float_str out h),
              (''CPUTEMP'', float_str out cpu_temp)] of
        Inl e \<Rightarrow> (Inl e, s)
      | Inr url \<Rightarrow>
          (case requests_get out (length (requested s)) url of
             Inr status \<Rightarrow>
               (Inr (), s\<lparr>requested := requested s @ [url],
                          printed := printed s @ [HTTP_sent device_id t h cpu_temp status]\<rparr>)
           | Inl e \<Rightarrow>
               (Inr (), s\<lparr>requested := requested s @ [url],
                          printed := printed s @ [HTTP_request_failed device_id e]\<rparr>)))"

text \<open>
  \<^verbatim>\<open>on_message\<close> for a message with the given topic and payload, received when
  \<^verbatim>\<open>time.time()\<close> is \<open>now\<close>. Nothing in its \<^verbatim>\<open>try\<close> body can raise (the split of a
  string is never empty, and \<^verbatim>\<open>struct.unpack\<close> is reached with six bytes only), so the
  \<^verbatim>\<open>except\<close> branch has no counterpart here.
\<close>

definition on_message :: "string \<Rightarrow> bytes \<Rightarrow> rat \<Rightarrow> receiver \<Rightarrow> receiver" where
  "on_message topic payload now s =
     (let topic_parts = split_on CHR ''/'' topic;
          device_id = last topic_parts
      in case decode_payload payload of
           Inl (MalformedFrame n) \<Rightarrow>
             s\<lparr>printed := printed s @ [Invalid_payload_length device_id n]\<rparr>
         | Inr (t, h, cpu_temp) \<Rightarrow>
             s\<lparr>last_data :=
                  dict_set device_id
                    \<lparr>temp = t, hum = h, cpu = cpu_temp, last_mqtt = now,
                     last_http = (case map_of (last_data s) device_id of
                                    None \<Rightarrow> 0
                                  | Some d \<Rightarrow> last_http d)\<rparr>
                    (last_data s)\<rparr>)"

text \<open>\<^verbatim>\<open>last_data[device_id]["last_http"] = now\<close>.\<close>

fun set_last_http ::
  "string \<Rightarrow> rat \<Rightarrow> (string \<times> device_data) list \<Rightarrow> (string \<times> device_data) list" where
  "set_last_http k now [] = []"
| "set_last_http k now ((k', d) # kvs) =
     (if k' = k then (k', d\<lparr>last_http := now\<rparr>) # kvs
      else (k', d) # set_last_http k now kvs)"

text \<open>
  The \<^verbatim>\<open>for\<close> loop of \<^verbatim>\<open>update_loop\<close> over the items of \<^verbatim>\<open>last_data\<close>. An item is
  read before the loop has changed it, so the loop runs over the items as they were
  when it started. An exception out of \<^verbatim>\<open>send_http\<close> leaves the loop at once.
\<close>

fun forward_items ::
  "outside \<Rightarrow> rat \<Rightarrow> (string \<times> device_data) list \<Rightarrow> receiver \<Rightarrow> (exn + unit) \<times> receiver" where
  "forward_items out now [] s = (Inr (), s)"
| "forward_items out now ((device_id, data) # items) s =
     (if now - last_http data \<ge> UPDATE_INTERVAL then
        (case send_http out device_id (temp data) (hum data) (cpu data) s of
           (Inl e, s1) \<Rightarrow> (Inl e, s1)
         | (Inr _, s1) \<Rightarrow>
             forward_items out now items
               (s1\<lparr>last_data := set_last_http device_id now (last_data s1)\<rparr>))
      else forward_items out now items s)"

text \<open>
  \<^verbatim>\<open>update_loop\<close>, one pass of its \<^verbatim>\<open>while True\<close> per element of the list of times at
  which \<^verbatim>\<open>time.time()\<close> is read. Nothing catches an exception here: it ends the loop,
  and with it the thread that runs it.
\<close>

fun update_loop :: "outside \<Rightarrow> rat list \<Rightarrow> receiver \<Rightarrow> (exn + unit) \<times> receiver" where
  "update_loop out [] s = (Inr (), s)"
| "update_loop out (now # nows) s =
     (case forward_items out now (last_data s) s of
        (Inl e, s1) \<Rightarrow> (Inl e, s1)
      | (Inr _, s1) \<Rightarrow> update_loop out nows s1)"

subsection \<open>Observing a run\<close>

text \<open>
  The recursive equations of the two loops defined with \<^theory_text>\<open>function\<close> are unfolded by
  hand only.
\<close>

declare send_at_loop.simps [simp del]
declare str_nat.simps [simp del]

text \<open>
  What a run of the sender shows from outside is its console. \<open>printed_since w w'\<close> is
  the list of lines printed on the way from \<open>w\<close> to \<open>w'\<close>. Every pass of the publish
  loop that fails prints one \<open>Publish_failed\<close> line; every call of \<^verbatim>\<open>mqtt_connect\<close> that
  returns prints one \<open>MQTT_connected\<close> line; every call of \<^verbatim>\<open>mqtt_publish\<close> that
  returns prints one outcome line, \<open>Published\<close> or \<open>Failed_to_publish_after_3_attempts\<close>;
  the lines of init and of the network wait are the session lines.
\<close>

definition printed_since :: "world \<Rightarrow> world \<Rightarrow> line list" where
  "printed_since w w' = drop (length (console w)) (console w')"



fun is_publish_outcome :: "line \<Rightarrow> bool" where
  "is_publish_outcome (Published d) = True"
| "is_publish_outcome Failed_to_publish_after_3_attempts = True"
| "is_publish_outcome _ = False"

fun is_session_line :: "line \<Rightarrow> bool" where
  "is_session_line Initializing = True"
| "is_session_line Ready = True"
| "is_session_line (Network_OK r) = True"
| "is_session_line Waiting_for_network = True"
| "is_session_line Network_lost = True"
| "is_session_line _ = False"

text \<open>
  A runtime to run the model with: \<^verbatim>\<open>decode\<close> accepts every byte string, \<^verbatim>\<open>int\<close> reads
  unsigned decimal numerals.
\<close>

fun nat_of_digits :: "nat \<Rightarrow> string \<Rightarrow> nat option" where
  "nat_of_digits acc [] = Some acc"
| "nat_of_digits acc (c # cs) =
     (if 48 \<le> (of_char c :: nat) \<and> (of_char c :: nat) \<le> 57
      then nat_of_digits (acc * 10 + (of_char c - 48)) cs else None)"

definition plain_int :: "string \<Rightarrow> int option" where
  "plain_int s = (if s = [] then None else map_option int (nat_of_digits 0 s))"

definition plain_runtime :: runtime where
  "plain_runtime = \<lparr>bytes_decode = Some, str_to_int = plain_int, DEVICE_ID = ''e661a4d1''\<rparr>"

text \<open>A world in which the modem never answers and nothing fails.\<close>

definition quiet_world :: world where
  "quiet_world = \<lparr>ticks = 0, rx_buf = [], rx_script = [], uart_tx = [], uart_faults = [],
                   dht_script = [], adc_script = [], console = []\<rparr>"



text \<open>A world in which the modem answers the first command with \<^verbatim>\<open>ERROR\<close>, then is silent.\<close>

definition error_world :: world where
  "error_world = quiet_world\<lparr>rx_script := [''ERROR'' @ CRLF]\<rparr>"

text \<open>
  The polls of \<^verbatim>\<open>nb_iot_wait_network\<close>, one by one: \<open>after_polls k rt w\<close> is the world
  in which poll number \<open>k\<close> is made (counting from 0) when the polls before it did not
  end the wait, \<open>rssi_at k rt w\<close> is what \<^verbatim>\<open>nb_iot_check_signal\<close> returns there, and
  \<open>invalid_at k rt w\<close> says that it returns a value that is not strictly between 0
  and 99.
\<close>

fun after_polls :: "nat \<Rightarrow> runtime \<Rightarrow> world \<Rightarrow> world" where
  "after_polls 0 rt w = w"
| "after_polls (Suc k) rt w =
     after_polls k rt (py_sleep 5000 (print Waiting_for_network (snd (nb_iot_check_signal rt w))))"

definition rssi_at :: "nat \<Rightarrow> runtime \<Rightarrow> world \<Rightarrow> exn + int" where
  "rssi_at k rt w = fst (nb_iot_check_signal rt (after_polls k rt w))"

definition invalid_at :: "nat \<Rightarrow> runtime \<Rightarrow> world \<Rightarrow> bool" where
  "invalid_at k rt w = (case rssi_at k rt w of Inl e \<Rightarrow> False | Inr r \<Rightarrow> \<not> (0 < r \<and> r < 99))"

text \<open>
  A world in which the modem answers four signal queries, five seconds apart, with the
  readings 0 and 99, then an \<^verbatim>\<open>ERROR\<close> that does not parse, then 15.
\<close>

definition csq :: "string \<Rightarrow> string" where
  "csq v = ''+CSQ: '' @ v @ CRLF @ CRLF @ ''OK'' @ CRLF"

definition signal_world :: world where
  "signal_world = quiet_world
     \<lparr>rx_script := csq ''0,0'' # replicate 50 [] @ csq ''99,99'' # replicate 50 []
                     @ (''ERROR'' @ CRLF) # replicate 50 [] @ [csq ''15,99'']\<rparr>"

text \<open>
  \<open>step_prints P n w w'\<close>: on the way from \<open>w\<close> to \<open>w'\<close> the DHT22 was not read and
  exactly \<open>n\<close> of the lines printed satisfy \<open>P\<close>.
\<close>

definition step_prints :: "(line \<Rightarrow> bool) \<Rightarrow> nat \<Rightarrow> world \<Rightarrow> world \<Rightarrow> bool" where
  "step_prints P n w w' \<longleftrightarrow>
     dht_script w' = dht_script w \<and>
     (\<exists>ls. console w' = console w @ ls \<and> length (filter P ls) = n)"

text \<open>
  Worlds in which the DHT22 gives the same reading twice while the CPU temperature
  changes: one with a silent modem, one in which the modem reports the signal 15 before
  each pass and acknowledges the publish command.
\<close>

definition observed_world_868 :: world where
  "observed_world_868 = quiet_world
     \<lparr>dht_script := [Some (43 / 2, 40), Some (43 / 2, 40)], adc_script := [14000, 14100]\<rparr>"

definition observed_world_7080 :: world where
  "observed_world_7080 = quiet_world
     \<lparr>rx_script := csq ''15,99'' # (''OK'' @ CRLF) # replicate 100 [] @ [csq ''15,99''],
      dht_script := [Some (43 / 2, 40), Some (43 / 2, 40)], adc_script := [14000, 14100]\<rparr>"






section \<open>Properties\<close>

subsection \<open>Codec\<close>

lemma mod_65536_split: "(n::int) div 256 mod 256 * 256 + n mod 256 = n mod 65536"
  using zmod_zmult2_eq [of 256 n 256] by simp

lemma wrap16_mod:
  "wrap16 n = (if 32768 \<le> n mod 65536 then n mod 65536 - 65536 else n mod 65536)"
proof -
  define m where "m = n mod 65536"
  have m: "0 \<le> m" "m < 65536" by (simp_all add: m_def)
  have e: "(n + 32768) mod 65536 = (m + 32768) mod 65536"
    unfolding m_def by (simp add: mod_add_left_eq)
  show ?thesis
  proof (cases "32768 \<le> m")
    case True
    have "(m + 32768) mod 65536 = (m - 32768 + 65536) mod 65536" by (simp add: algebra_simps)
    also have "\<dots> = (m - 32768) mod 65536" by (simp only: mod_add_self2)
    also have "\<dots> = m - 32768" using True m by (simp add: mod_pos_pos_trivial)
    finally show ?thesis using True unfolding wrap16_def e m_def [symmetric] by simp
  next
    case False
    then have "(m + 32768) mod 65536 = m + 32768"
      using m by (simp add: mod_pos_pos_trivial)
    then show ?thesis using False unfolding wrap16_def e m_def [symmetric] by simp
  qed
qed

lemma unpack_pack_h: "unpack_h (word_of_int (n div 256)) (word_of_int n) = wrap16 n"
proof -
  have a: "uint (word_of_int (n div 256) :: byte) = n div 256 mod 256"
    by (simp add: uint_word_of_int)
  have b: "uint (word_of_int n :: byte) = n mod 256"
    by (simp add: uint_word_of_int)
  show ?thesis
    unfolding unpack_h_def Let_def a b mod_65536_split wrap16_mod by (rule refl)
qed


lemma length_encode_sensor: "length (encode_sensor t h c) = 6"
  by (simp add: encode_sensor_def pack_h_def Let_def)

lemma unpack_encode_sensor:
  "unpack_hhh (encode_sensor t h c) =
     (wrap16 (py_int (t * 100)), wrap16 (py_int (h * 10)), wrap16 (py_int (c * 100)))"
  by (simp add: encode_sensor_def pack_h_def unpack_pack_h Let_def)

lemma decode_encode_wrap:
  "decode_payload (encode_sensor t h c) =
     Inr (of_int (wrap16 (py_int (t * 100))) / 100,
          of_int (wrap16 (py_int (h * 10))) / 10,
          of_int (wrap16 (py_int (c * 100))) / 100)"
  by (simp add: decode_payload_def length_encode_sensor unpack_encode_sensor)

lemma py_int_eval: "py_int (8775 / 4) = 2193" "py_int 400 = 400" "py_int 3000 = 3000"
   "py_int 40000 = 40000" "py_int 0 = 0"
  by (simp_all add: py_int_def floor_eq_iff)





text \<open>
  Claim C9. \<^verbatim>\<open>encode_sensor\<close> always returns six bytes, and each 16-bit field holds the
  scaled, truncated value wrapped modulo \<open>2 ^ 16\<close> into the two's complement range:
  nothing fails and nothing is clamped. A temperature of 400 degrees (scaled 40000) is
  sent as \<open>-25536\<close> and decodes to \<open>-255.36\<close>.
\<close>

theorem encode_sensor_wraps:
  "length (encode_sensor t h c) = 6 \<and>
   unpack_hhh (encode_sensor t h c) =
     (wrap16 (py_int (t * 100)), wrap16 (py_int (h * 10)), wrap16 (py_int (c * 100))) \<and>
   wrap16 n = (n + 2 ^ 15) mod 2 ^ 16 - 2 ^ 15 \<and>
   decode_payload (encode_sensor 400 0 0) = Inr (- 6384 / 25, 0, 0)"
  by (simp add: length_encode_sensor unpack_encode_sensor decode_encode_wrap py_int_eval wrap16_def)


lemma split_on_not_Nil: "split_on sep s \<noteq> []"
  by (induction s) (auto split: list.splits)

lemma map_of_dict_set: "map_of (dict_set k v kvs) k = Some v"
  by (induction kvs) auto

lemma map_of_dict_set_other: "k' \<noteq> k \<Longrightarrow> map_of (dict_set k v kvs) k' = map_of kvs k'"
  by (induction kvs) auto

lemma decode_payload_short: "length b \<noteq> 6 \<Longrightarrow> decode_payload b = Inl (MalformedFrame (length b))"
  by (simp add: decode_payload_def)

lemma decode_payload_six:
  "length b = 6 \<Longrightarrow>
     decode_payload b =
       Inr (of_int (fst (unpack_hhh b)) / 100, of_int (fst (snd (unpack_hhh b))) / 10,
            of_int (snd (snd (unpack_hhh b))) / 100)"
  by (simp add: decode_payload_def split: prod.splits)

text \<open>
  Claim C6. A payload whose length is not 6 is refused with \<open>MalformedFrame\<close>, and
  \<^verbatim>\<open>on_message\<close> leaves \<^verbatim>\<open>last_data\<close> as it was. A payload of exactly 6 bytes always
  decodes, whatever the bytes are, and its values are stored under the device id, the
  last segment of the topic, with the \<^verbatim>\<open>last_http\<close> the device had before (0 for a new
  device).
\<close>

theorem decode_payload_length:
  "(length b \<noteq> 6 \<longrightarrow>
      decode_payload b = Inl (MalformedFrame (length b)) \<and>
      last_data (on_message topic b now s) = last_data s) \<and>
   (length b = 6 \<longrightarrow>
      (\<exists>t h c. decode_payload b = Inr (t, h, c) \<and>
         map_of (last_data (on_message topic b now s)) (last (split_on CHR ''/'' topic)) =
           Some \<lparr>temp = t, hum = h, cpu = c, last_mqtt = now,
                 last_http = (case map_of (last_data s) (last (split_on CHR ''/'' topic)) of
                                None \<Rightarrow> 0 | Some d \<Rightarrow> last_http d)\<rparr>))"
proof (intro conjI impI)
  assume n: "length b \<noteq> 6"
  then show "decode_payload b = Inl (MalformedFrame (length b))"
    by (rule decode_payload_short)
  then show "last_data (on_message topic b now s) = last_data s"
    by (simp add: on_message_def Let_def)
next
  assume "length b = 6"
  then have d: "decode_payload b =
       Inr (of_int (fst (unpack_hhh b)) / 100, of_int (fst (snd (unpack_hhh b))) / 10,
            of_int (snd (snd (unpack_hhh b))) / 100)"
    by (rule decode_payload_six)
  show "\<exists>t h c. decode_payload b = Inr (t, h, c) \<and>
         map_of (last_data (on_message topic b now s)) (last (split_on CHR ''/'' topic)) =
           Some \<lparr>temp = t, hum = h, cpu = c, last_mqtt = now,
                 last_http = (case map_of (last_data s) (last (split_on CHR ''/'' topic)) of
                                None \<Rightarrow> 0 | Some d \<Rightarrow> last_http d)\<rparr>"
    by (intro exI conjI, rule d) (simp add: on_message_def Let_def d map_of_dict_set)
qed

theorem decode_payload_length_witness:
  "length ([] :: bytes) \<noteq> 6 \<and>
   decode_payload [] = Inl (MalformedFrame 0) \<and>
   last_data (on_message ''temperature/A'' [] 5 \<lparr>last_data = [], printed = [], requested = []\<rparr>) = [] \<and>
   length [255, 255, 128, 0, 127, 255 :: byte] = 6 \<and>
   (\<exists>t h c. decode_payload [255, 255, 128, 0, 127, 255] = Inr (t, h, c))"
  using decode_payload_length [of "[]" "''temperature/A''" 5
          "\<lparr>last_data = [], printed = [], requested = []\<rparr>"]
        decode_payload_length [of "[255, 255, 128, 0, 127, 255]" "''temperature/A''" 5
          "\<lparr>last_data = [], printed = [], requested = []\<rparr>"]
  by auto

subsection \<open>Receiver\<close>

text \<open>
  \<^verbatim>\<open>HTTP_URL_TEMPLATE\<close> has a field \<^verbatim>\<open>{ADDRESS}\<close>, and \<^verbatim>\<open>send_http\<close> passes no
  \<^verbatim>\<open>ADDRESS\<close> to \<^verbatim>\<open>format\<close>: every call raises \<^verbatim>\<open>KeyError('ADDRESS')\<close> before
  \<^verbatim>\<open>requests.get\<close> is reached.
\<close>

lemma send_http_raises: "send_http out d t h c s = (Inl (KeyError ''ADDRESS''), s)"
  by (simp add: send_http_def py_format_def HTTP_URL_TEMPLATE_def)

lemma forward_items_state: "snd (forward_items out now items s) = s"
  by (induction items) (auto simp: send_http_raises)

lemma forward_items_due:
  "now - last_http d \<ge> UPDATE_INTERVAL \<Longrightarrow>
     forward_items out now ((k, d) # items) s = (Inl (KeyError ''ADDRESS''), s)"
  by (simp add: send_http_raises)

lemma update_loop_state: "snd (update_loop out nows s) = s"
proof (induction nows)
  case Nil
  then show ?case by simp
next
  case (Cons now nows)
  obtain r where r: "forward_items out now (last_data s) s = (r, s)"
    using forward_items_state [of out now "last_data s" s] by (cases "forward_items out now (last_data s) s") simp
  show ?case using Cons by (cases r) (simp_all add: r)
qed

lemma on_message_A:
  "on_message ''temperature/A'' (encode_sensor (43 / 2) 40 30) 0
     \<lparr>last_data = [], printed = [], requested = []\<rparr> =
   \<lparr>last_data = [(''A'', \<lparr>temp = 43 / 2, hum = 40, cpu = 30, last_mqtt = 0, last_http = 0\<rparr>)],
    printed = [], requested = []\<rparr>"
  by (simp add: on_message_def Let_def decode_encode_wrap py_int_def wrap16_def)

text \<open>
  Claim C2, on the scenario it gives. Device \<open>A\<close> is recorded at time 0 with 21.5
  degrees and 40 percent; \<^verbatim>\<open>last_http\<close> starts at 0. The pass at time 30 forwards
  nothing. The pass at time 65 finds the device due and calls \<^verbatim>\<open>send_http\<close>, which
  raises \<^verbatim>\<open>KeyError('ADDRESS')\<close>: no URL is requested, \<^verbatim>\<open>last_http\<close> stays 0, and the
  exception ends \<^verbatim>\<open>update_loop\<close>, so the passes at 70 and 125 never run.
\<close>

theorem update_loop_scenario:
  "on_message ''temperature/A'' (encode_sensor (43 / 2) 40 30) 0
     \<lparr>last_data = [], printed = [], requested = []\<rparr> =
     \<lparr>last_data = [(''A'', \<lparr>temp = 43 / 2, hum = 40, cpu = 30, last_mqtt = 0, last_http = 0\<rparr>)],
      printed = [], requested = []\<rparr> \<and>
   update_loop out [30]
     \<lparr>last_data = [(''A'', \<lparr>temp = 43 / 2, hum = 40, cpu = 30, last_mqtt = 0, last_http = 0\<rparr>)],
      printed = [], requested = []\<rparr> =
     (Inr (),
      \<lparr>last_data = [(''A'', \<lparr>temp = 43 / 2, hum = 40, cpu = 30, last_mqtt = 0, last_http = 0\<rparr>)],
       printed = [], requested = []\<rparr>) \<and>
   update_loop out [65, 70, 125]
     \<lparr>last_data = [(''A'', \<lparr>temp = 43 / 2, hum = 40, cpu = 30, last_mqtt = 0, last_http = 0\<rparr>)],
      printed = [], requested = []\<rparr> =
     (Inl (KeyError ''ADDRESS''),
      \<lparr>last_data = [(''A'', \<lparr>temp = 43 / 2, hum = 40, cpu = 30, last_mqtt = 0, last_http = 0\<rparr>)],
       printed = [], requested = []\<rparr>)"
  by (simp add: on_message_A send_http_raises UPDATE_INTERVAL_def)

text \<open>
  Claim C8. Whatever \<^verbatim>\<open>requests.get\<close> would do, \<^verbatim>\<open>send_http\<close> raises before calling
  it, and \<^verbatim>\<open>update_loop\<close> never changes the state of the receiver: no \<^verbatim>\<open>last_http\<close> is
  ever advanced. With a device due at time 65, the loop ends there with the exception.
\<close>

theorem forward_never_advances:
  "send_http out device_id t h c s = (Inl (KeyError ''ADDRESS''), s) \<and>
   snd (update_loop out nows s) = s \<and>
   update_loop \<lparr>float_str = f, requests_get = g\<rparr> [65, 66]
     \<lparr>last_data = [(''A'', \<lparr>temp = 43 / 2, hum = 40, cpu = 30, last_mqtt = 0, last_http = 0\<rparr>)],
      printed = [], requested = []\<rparr> =
     (Inl (KeyError ''ADDRESS''),
      \<lparr>last_data = [(''A'', \<lparr>temp = 43 / 2, hum = 40, cpu = 30, last_mqtt = 0, last_http = 0\<rparr>)],
       printed = [], requested = []\<rparr>)"
  by (simp add: send_http_raises update_loop_state UPDATE_INTERVAL_def)

subsection \<open>Senders: what the transport leaves unchanged\<close>

lemma send_at_loop_frame:
  "send_at_loop t0 tmo r w = (r', w') \<Longrightarrow>
     console w' = console w \<and> uart_tx w' = uart_tx w \<and> uart_faults w' = uart_faults w \<and>
     dht_script w' = dht_script w \<and> adc_script w' = adc_script w"
proof (induction t0 tmo r w rule: send_at_loop.induct)
  case (1 t0 tmo r w)
  from "1.prems" show ?case
    apply (subst (asm) send_at_loop.simps)
    apply (simp add: Let_def split: if_splits)
    using "1.IH"
    apply (auto simp: Let_def uart_read_def py_sleep_def)
    done
qed

lemma uart_write_frame:
  "uart_write x w = (r, w') \<Longrightarrow>
     console w' = console w \<and> dht_script w' = dht_script w \<and> adc_script w' = adc_script w \<and>
     ticks w' = ticks w \<and> rx_buf w' = rx_buf w \<and> rx_script w' = rx_script w"
  by (auto simp: uart_write_def split: list.splits if_splits)

lemma send_at_frame:
  assumes "send_at rt cmd tmo w = (r, w')"
  shows "console w' = console w \<and> dht_script w' = dht_script w \<and> adc_script w' = adc_script w"
proof (cases "uart_write (Text (cmd @ CRLF)) w")
  case (Pair u w1)
  note f1 = uart_write_frame [OF Pair]
  show ?thesis
  proof (cases u)
    case (Inl e)
    with assms Pair f1 show ?thesis by (simp add: send_at_def)
  next
    case (Inr x)
    obtain resp w2 where l: "send_at_loop (ticks w1) tmo [] w1 = (resp, w2)"
      by (cases "send_at_loop (ticks w1) tmo [] w1")
    note f2 = send_at_loop_frame [OF l]
    from assms Pair Inr l have "w' = w2"
      by (simp add: send_at_def split: option.splits)
    with f1 f2 show ?thesis by simp
  qed
qed

lemma send_all_frame:
  "send_all rt tmo cmds w = (r, w') \<Longrightarrow>
     console w' = console w \<and> dht_script w' = dht_script w \<and> adc_script w' = adc_script w"
proof (induction cmds arbitrary: w)
  case Nil
  then show ?case by simp
next
  case (Cons cmd cmds)
  obtain u w1 where s: "send_at rt cmd tmo w = (u, w1)"
    by (cases "send_at rt cmd tmo w")
  note f = send_at_frame [OF s]
  show ?case
  proof (cases u)
    case (Inl e)
    with Cons.prems s f show ?thesis by simp
  next
    case (Inr x)
    with Cons.prems s have "send_all rt tmo cmds w1 = (r, w')" by simp
    from Cons.IH [OF this] f show ?thesis by simp
  qed
qed

lemma printed_since_refl: "printed_since w w = []"
  by (simp add: printed_since_def)

lemma printed_since_append:
  "console w' = console w @ ls \<Longrightarrow> printed_since w w' = ls"
  by (simp add: printed_since_def)

lemma console_print: "console (print l w) = console w @ [l]"
  by (simp add: print_def)

lemma console_py_sleep: "console (py_sleep ms w) = console w"
  by (simp add: py_sleep_def)

lemma sensors_print: "dht_script (print l w) = dht_script w" "adc_script (print l w) = adc_script w"
  by (simp_all add: print_def)

lemma sensors_py_sleep:
  "dht_script (py_sleep ms w) = dht_script w" "adc_script (py_sleep ms w) = adc_script w"
  by (simp_all add: py_sleep_def)

text \<open>What a connect prints: a line for every failed pass, then one \<open>MQTT_connected\<close>.\<close>

lemma sim7080g_mqtt_connect_console:
  "sim7080g_mqtt_connect fuel rt w = Some w' \<Longrightarrow>
     \<exists>es. console w' = console w @ map MQTT_connect_failed es @ [MQTT_connected] \<and>
          dht_script w' = dht_script w \<and> adc_script w' = adc_script w"
proof (induction fuel arbitrary: w)
  case 0
  then show ?case by simp
next
  case (Suc fuel)
  obtain u w1 where s: "send_all rt 2000 (sim7080g_connect_cmds rt) w = (u, w1)"
    by (cases "send_all rt 2000 (sim7080g_connect_cmds rt) w")
  note f = send_all_frame [OF s]
  show ?case
  proof (cases u)
    case (Inr x)
    with Suc.prems s have "w' = print MQTT_connected w1" by simp
    with f have "console w' = console w @ map MQTT_connect_failed [] @ [MQTT_connected] \<and>
          dht_script w' = dht_script w \<and> adc_script w' = adc_script w"
      by (simp add: console_print sensors_print)
    then show ?thesis by blast
  next
    case (Inl e)
    with Suc.prems s have
      "sim7080g_mqtt_connect fuel rt (py_sleep 5000 (print (MQTT_connect_failed e) w1)) = Some w'"
      by simp
    from Suc.IH [OF this] obtain es where
      "console w' = console (py_sleep 5000 (print (MQTT_connect_failed e) w1)) @
          map MQTT_connect_failed es @ [MQTT_connected]"
      "dht_script w' = dht_script w1" "adc_script w' = adc_script w1"
      by (auto simp: sensors_print sensors_py_sleep)
    with f have "console w' = console w @ map MQTT_connect_failed (e # es) @ [MQTT_connected] \<and>
          dht_script w' = dht_script w \<and> adc_script w' = adc_script w"
      by (simp add: console_print console_py_sleep)
    then show ?thesis by blast
  qed
qed

lemma sim868_mqtt_connect_console:
  "sim868_mqtt_connect fuel rt w = Some w' \<Longrightarrow>
     \<exists>es. console w' = console w @ map MQTT_connect_failed es @ [MQTT_connected] \<and>
          dht_script w' = dht_script w \<and> adc_script w' = adc_script w"
proof (induction fuel arbitrary: w)
  case 0
  then show ?case by simp
next
  case (Suc fuel)
  obtain u w1 where s: "send_all rt 3000 (sim868_connect_cmds rt) w = (u, w1)"
    by (cases "send_all rt 3000 (sim868_connect_cmds rt) w")
  note f = send_all_frame [OF s]
  show ?case
  proof (cases u)
    case (Inr x)
    with Suc.prems s have "w' = print MQTT_connected w1" by simp
    with f have "console w' = console w @ map MQTT_connect_failed [] @ [MQTT_connected] \<and>
          dht_script w' = dht_script w \<and> adc_script w' = adc_script w"
      by (simp add: console_print sensors_print)
    then show ?thesis by blast
  next
    case (Inl e)
    with Suc.prems s have
      "sim868_mqtt_connect fuel rt (py_sleep 5000 (print (MQTT_connect_failed e) w1)) = Some w'"
      by simp
    from Suc.IH [OF this] obtain es where
      "console w' = console (py_sleep 5000 (print (MQTT_connect_failed e) w1)) @
          map MQTT_connect_failed es @ [MQTT_connected]"
      "dht_script w' = dht_script w1" "adc_script w' = adc_script w1"
      by (auto simp: sensors_print sensors_py_sleep)
    with f have "console w' = console w @ map MQTT_connect_failed (e # es) @ [MQTT_connected] \<and>
          dht_script w' = dht_script w \<and> adc_script w' = adc_script w"
      by (simp add: console_print console_py_sleep)
    then show ?thesis by blast
  qed
qed

lemma sim7080g_publish_try_frame:
  "sim7080g_publish_try rt topic d w = (r, w') \<Longrightarrow>
     dht_script w' = dht_script w \<and> adc_script w' = adc_script w \<and>
     console w' = console w @ (case r of Inl e \<Rightarrow> [] | Inr u \<Rightarrow> [Published d])"
  unfolding sim7080g_publish_try_def
  by (auto split: prod.splits sum.splits
           dest!: send_at_frame uart_write_frame simp: console_print sensors_print)

lemma sim868_publish_try_frame:
  "sim868_publish_try rt topic d w = (r, w') \<Longrightarrow>
     dht_script w' = dht_script w \<and> adc_script w' = adc_script w \<and>
     console w' = console w @ (case r of Inl e \<Rightarrow> [] | Inr u \<Rightarrow> [Published d])"
  unfolding sim868_publish_try_def
  by (auto split: prod.splits sum.splits
           dest!: send_at_frame send_all_frame uart_write_frame
           simp: console_print sensors_print)




lemma outcome_filter_connect:
  "filter is_publish_outcome (map MQTT_connect_failed es @ [MQTT_connected]) = []"
  by (induction es) auto

lemma session_filter_connect:
  "filter is_session_line (map MQTT_connect_failed es @ [MQTT_connected]) = []"
  by (induction es) auto




lemma uart_write_ok:
  "uart_faults w = [] \<or> \<not> hd (uart_faults w) \<Longrightarrow>
     uart_write x w = (Inr (), w\<lparr>uart_tx := uart_tx w @ [x], uart_faults := tl (uart_faults w)\<rparr>)"
  by (cases "uart_faults w") (auto simp: uart_write_def)


lemma py_sleep_silent:
  "rx_buf w = [] \<Longrightarrow> rx_script w = [] \<Longrightarrow> py_sleep ms w = w\<lparr>ticks := ticks w + ms\<rparr>"
  by (simp add: py_sleep_def)

lemma send_at_loop_silent:
  "rx_buf w = [] \<Longrightarrow> rx_script w = [] \<Longrightarrow> t0 \<le> ticks w \<Longrightarrow>
   \<not> bytes_in ''OK'' r \<Longrightarrow> \<not> bytes_in ''ERROR'' r \<Longrightarrow>
     send_at_loop t0 tmo r w =
       (r, w\<lparr>ticks := ticks w + 100 * ((t0 + tmo + 99 - ticks w) div 100)\<rparr>)"
proof (induction t0 tmo r w rule: send_at_loop.induct)
  case (1 t0 tmo r w)
  show ?case
  proof (cases "int (ticks w) - int t0 < int tmo")
    case False
    with "1.prems" have "(t0 + tmo + 99 - ticks w) div 100 = 0" by simp
    with False show ?thesis
      by (subst send_at_loop.simps) simp
  next
    case True
    let ?w1 = "w\<lparr>ticks := ticks w + 100\<rparr>"
    have s: "py_sleep 100 w = ?w1" using "1.prems" by (simp add: py_sleep_silent)
    have ih: "send_at_loop t0 tmo r ?w1 =
       (r, ?w1\<lparr>ticks := ticks ?w1 + 100 * ((t0 + tmo + 99 - ticks ?w1) div 100)\<rparr>)"
      using "1.IH" [OF True refl refl] "1.prems"
      by (simp add: uart_any_def s)
    have a: "100 \<le> t0 + tmo + 99 - ticks w" using True "1.prems" by simp
    have "(t0 + tmo + 99 - ticks w) div 100 = Suc ((t0 + tmo + 99 - ticks w - 100) div 100)"
      using a by (simp add: le_div_geq)
    then have b: "ticks w + 100 + 100 * ((t0 + tmo + 99 - (ticks w + 100)) div 100) =
          ticks w + 100 * ((t0 + tmo + 99 - ticks w) div 100)"
      by simp
    show ?thesis
      using True "1.prems" ih b
      by (subst send_at_loop.simps) (simp add: uart_any_def s)
  qed
qed

lemma send_at_silent:
  assumes "rx_buf w = []" "rx_script w = []"
      and "uart_faults w = [] \<or> \<not> hd (uart_faults w)"
      and "bytes_decode rt [] = Some s"
  shows "send_at rt cmd tmo w =
           (Inr s, w\<lparr>ticks := ticks w + 100 * ((tmo + 99) div 100),
                     uart_tx := uart_tx w @ [Text (cmd @ CRLF)],
                     uart_faults := tl (uart_faults w)\<rparr>)"
  using assms
  by (simp add: send_at_def uart_write_ok send_at_loop_silent)


lemma send_at_loop_answered:
  assumes "rx_buf w = []" "rx_script w \<noteq> []"
      and "bytes_in ''OK'' (hd (rx_script w)) \<or> bytes_in ''ERROR'' (hd (rx_script w))"
      and "ticks w = t0" "100 < tmo"
  shows "send_at_loop t0 tmo [] w =
           (hd (rx_script w),
            w\<lparr>ticks := ticks w + 100, rx_buf := [], rx_script := tl (rx_script w)\<rparr>)"
proof -
  obtain c cs where sc: "rx_script w = c # cs" using assms(2) by (cases "rx_script w") auto
  with assms(3) have c: "bytes_in ''OK'' c \<or> bytes_in ''ERROR'' c" by simp
  then have cne: "c \<noteq> []" by auto
  let ?w1 = "w\<lparr>ticks := ticks w + 100, rx_buf := c, rx_script := cs\<rparr>"
  have s: "py_sleep 100 w = ?w1" using assms(1) sc by (simp add: py_sleep_def)
  have 2: "send_at_loop t0 tmo [] ?w1 = (c, ?w1\<lparr>rx_buf := []\<rparr>)"
    using assms(4,5) c cne
    by (subst send_at_loop.simps) (simp add: uart_any_def uart_read_def)
  have "send_at_loop t0 tmo [] w = send_at_loop t0 tmo [] ?w1"
    using assms(1,4,5)
    by (subst send_at_loop.simps) (simp add: uart_any_def s)
  with 2 sc show ?thesis by simp
qed

lemma send_at_answered:
  assumes "rx_buf w = []" "rx_script w \<noteq> []"
      and "bytes_in ''OK'' (hd (rx_script w)) \<or> bytes_in ''ERROR'' (hd (rx_script w))"
      and "100 < tmo"
      and "uart_faults w = [] \<or> \<not> hd (uart_faults w)"
      and "bytes_decode rt (hd (rx_script w)) = Some s"
  shows "send_at rt cmd tmo w =
           (Inr s, w\<lparr>ticks := ticks w + 100, rx_buf := [], rx_script := tl (rx_script w),
                     uart_tx := uart_tx w @ [Text (cmd @ CRLF)],
                     uart_faults := tl (uart_faults w)\<rparr>)"
  using assms
  by (simp add: send_at_def uart_write_ok send_at_loop_answered)






lemma no_fault_write:
  "True \<notin> set (uart_faults w) \<Longrightarrow> uart_faults w = [] \<or> \<not> hd (uart_faults w)"
  by (cases "uart_faults w") auto

lemma no_fault_tl: "True \<notin> set fs \<Longrightarrow> True \<notin> set (tl fs)"
  by (cases fs) auto

lemma send_at_normal:
  assumes dec: "\<forall>b. bytes_decode rt b \<noteq> None" and nf: "True \<notin> set (uart_faults w)"
  shows "\<exists>s w'. send_at rt cmd tmo w = (Inr s, w') \<and> True \<notin> set (uart_faults w') \<and>
           console w' = console w"
proof -
  let ?w1 = "w\<lparr>uart_tx := uart_tx w @ [Text (cmd @ CRLF)], uart_faults := tl (uart_faults w)\<rparr>"
  have wr: "uart_write (Text (cmd @ CRLF)) w = (Inr (), ?w1)"
    using no_fault_write [OF nf] by (rule uart_write_ok)
  obtain resp w2 where l: "send_at_loop (ticks w) tmo [] ?w1 = (resp, w2)"
    by (cases "send_at_loop (ticks w) tmo [] ?w1")
  from send_at_loop_frame [OF l] have f: "uart_faults w2 = tl (uart_faults w)" "console w2 = console w"
    by simp_all
  from dec obtain s where s: "bytes_decode rt resp = Some s" by auto
  have "send_at rt cmd tmo w = (Inr s, w2)"
    by (simp add: send_at_def wr l s)
  with f no_fault_tl [OF nf] show ?thesis by simp
qed

lemma send_all_normal:
  assumes dec: "\<forall>b. bytes_decode rt b \<noteq> None"
  shows "True \<notin> set (uart_faults w) \<Longrightarrow>
         \<exists>w'. send_all rt tmo cmds w = (Inr (), w') \<and> True \<notin> set (uart_faults w') \<and>
           console w' = console w"
proof (induction cmds arbitrary: w)
  case Nil
  then show ?case by simp
next
  case (Cons cmd cmds)
  from send_at_normal [OF dec Cons.prems, of cmd tmo] obtain s w1 where
    s: "send_at rt cmd tmo w = (Inr s, w1)" "True \<notin> set (uart_faults w1)" "console w1 = console w"
    by blast
  from Cons.IH [OF s(2)] obtain w' where
    "send_all rt tmo cmds w1 = (Inr (), w')" "True \<notin> set (uart_faults w')" "console w' = console w1"
    by blast
  with s show ?case by simp
qed

lemma sim7080g_connect_first_pass:
  "send_all rt 2000 (sim7080g_connect_cmds rt) w = (Inr u, wc) \<Longrightarrow>
     sim7080g_mqtt_connect (Suc fuel) rt w = Some (print MQTT_connected wc) \<and>
     printed_since w (print MQTT_connected wc) = [MQTT_connected]"
  by (auto dest: send_all_frame simp: printed_since_def console_print)

lemma sim868_connect_first_pass:
  "send_all rt 3000 (sim868_connect_cmds rt) w = (Inr u, wc) \<Longrightarrow>
     sim868_mqtt_connect (Suc fuel) rt w = Some (print MQTT_connected wc) \<and>
     printed_since w (print MQTT_connected wc) = [MQTT_connected]"
  by (auto dest: send_all_frame simp: printed_since_def console_print)

lemma sim7080g_publish_first_attempt:
  "sim7080g_publish_try rt topic d w = (Inr u, wp) \<Longrightarrow>
     sim7080g_mqtt_publish fuel rt topic d w = Some (True, wp) \<and>
     printed_since w wp = [Published d]"
  by (auto dest: sim7080g_publish_try_frame
           simp: sim7080g_mqtt_publish_def numeral_3_eq_3 printed_since_def)

lemma sim868_publish_first_attempt:
  "sim868_publish_try rt topic d w = (Inr u, wp) \<Longrightarrow>
     sim868_mqtt_publish fuel rt topic d w = Some (True, wp) \<and>
     printed_since w wp = [Published d]"
  by (auto dest: sim868_publish_try_frame
           simp: sim868_mqtt_publish_def numeral_3_eq_3 printed_since_def)

lemma sim7080g_publish_try_normal:
  assumes dec: "\<forall>b. bytes_decode rt b \<noteq> None" and nf: "True \<notin> set (uart_faults w)"
  shows "\<exists>wp. sim7080g_publish_try rt topic d w = (Inr (), wp)"
proof -
  let ?cmd = \<open>''AT+SMPUB="'' @ topic @ ''",'' @ str_nat (length d) @ '',1,0''\<close>
  from send_at_normal [OF dec nf] obtain s w1 where
    s: "send_at rt ?cmd 5000 w = (Inr s, w1)" "True \<notin> set (uart_faults w1)"
    by blast
  from uart_write_ok [OF no_fault_write [OF s(2)], of "Binary d"] s(1)
  show ?thesis by (simp add: sim7080g_publish_try_def)
qed

lemma sim868_publish_try_normal:
  assumes dec: "\<forall>b. bytes_decode rt b \<noteq> None" and nf: "True \<notin> set (uart_faults w)"
  shows "\<exists>wp. sim868_publish_try rt topic d w = (Inr (), wp)"
proof -
  let ?cmds = \<open>[''AT+CMQTTTOPIC=0,"'' @ topic @ ''",'' @ str_nat (length topic),
                ''AT+CMQTTPAYLOAD=0,'' @ str_nat (length d)]\<close>
  from send_all_normal [OF dec nf] obtain w1 where
    a: "send_all rt 3000 ?cmds w = (Inr (), w1)" "True \<notin> set (uart_faults w1)"
    by blast
  let ?w2 = "w1\<lparr>uart_tx := uart_tx w1 @ [Binary d], uart_faults := tl (uart_faults w1)\<rparr>"
  have b: "uart_write (Binary d) w1 = (Inr (), ?w2)"
    using no_fault_write [OF a(2)] by (rule uart_write_ok)
  have "True \<notin> set (uart_faults ?w2)" using no_fault_tl [OF a(2)] by simp
  from send_at_normal [OF dec this] obtain s w3 where
    c: "send_at rt ''AT+CMQTTPUB=0,1,60'' 3000 ?w2 = (Inr s, w3)"
    by blast
  show ?thesis
    unfolding sim868_publish_try_def using a(1) b c by simp
qed

text \<open>
  Claim C10. \<^verbatim>\<open>send_at\<close> returns the decoded response whenever its UART write and the
  decoding return, whatever the response holds: an \<^verbatim>\<open>ERROR\<close> answer or, after a timeout,
  a response without marker. When the \<^verbatim>\<open>send_at\<close> calls of \<^verbatim>\<open>mqtt_connect\<close> return,
  \<^verbatim>\<open>mqtt_connect\<close> returns in its first pass; when the \<^verbatim>\<open>try\<close> body of
  \<^verbatim>\<open>mqtt_publish\<close> returns, \<^verbatim>\<open>mqtt_publish\<close> returns \<open>True\<close> from its first attempt
  without a call of \<^verbatim>\<open>mqtt_connect\<close> (fuel 0 is enough). In a world where no UART write
  raises and \<^verbatim>\<open>decode\<close> accepts every response, this is so for every behaviour of the
  serial input.
\<close>

theorem transport_failure_never_raises:
  "(uart_write (Text (cmd @ CRLF)) w = (Inr (), w1) \<and>
    send_at_loop (ticks w1) tmo [] w1 = (resp, w2) \<and>
    bytes_decode rt resp = Some s \<longrightarrow>
      send_at rt cmd tmo w = (Inr s, w2)) \<and>
   (send_all rt 2000 (sim7080g_connect_cmds rt) w = (Inr (), wc) \<longrightarrow>
      sim7080g_mqtt_connect (Suc fuel) rt w = Some (print MQTT_connected wc) \<and>
      printed_since w (print MQTT_connected wc) = [MQTT_connected]) \<and>
   (send_all rt 3000 (sim868_connect_cmds rt) w = (Inr (), vc) \<longrightarrow>
      sim868_mqtt_connect (Suc fuel) rt w = Some (print MQTT_connected vc) \<and>
      printed_since w (print MQTT_connected vc) = [MQTT_connected]) \<and>
   (sim7080g_publish_try rt topic d w = (Inr (), wp) \<longrightarrow>
      sim7080g_mqtt_publish fuel rt topic d w = Some (True, wp) \<and>
      printed_since w wp = [Published d]) \<and>
   (sim868_publish_try rt topic d w = (Inr (), vp) \<longrightarrow>
      sim868_mqtt_publish fuel rt topic d w = Some (True, vp) \<and>
      printed_since w vp = [Published d]) \<and>
   ((\<forall>b. bytes_decode rt b \<noteq> None) \<and> True \<notin> set (uart_faults w) \<longrightarrow>
      (\<exists>s' w'. send_at rt cmd tmo w = (Inr s', w')) \<and>
      (\<exists>w'. sim7080g_mqtt_connect (Suc fuel) rt w = Some w' \<and>
            printed_since w w' = [MQTT_connected]) \<and>
      (\<exists>w'. sim868_mqtt_connect (Suc fuel) rt w = Some w' \<and>
            printed_since w w' = [MQTT_connected]) \<and>
      (\<exists>w'. sim7080g_mqtt_publish fuel rt topic d w = Some (True, w') \<and>
            printed_since w w' = [Published d]) \<and>
      (\<exists>w'. sim868_mqtt_publish fuel rt topic d w = Some (True, w') \<and>
            printed_since w w' = [Published d]))"
proof (intro conjI impI)
  assume "uart_write (Text (cmd @ CRLF)) w = (Inr (), w1) \<and>
    send_at_loop (ticks w1) tmo [] w1 = (resp, w2) \<and> bytes_decode rt resp = Some s"
  then show "send_at rt cmd tmo w = (Inr s, w2)"
    by (simp add: send_at_def)
next
  assume "send_all rt 2000 (sim7080g_connect_cmds rt) w = (Inr (), wc)"
  from sim7080g_connect_first_pass [OF this]
  show "sim7080g_mqtt_connect (Suc fuel) rt w = Some (print MQTT_connected wc)"
    and "printed_since w (print MQTT_connected wc) = [MQTT_connected]"
    by simp_all
next
  assume "send_all rt 3000 (sim868_connect_cmds rt) w = (Inr (), vc)"
  from sim868_connect_first_pass [OF this]
  show "sim868_mqtt_connect (Suc fuel) rt w = Some (print MQTT_connected vc)"
    and "printed_since w (print MQTT_connected vc) = [MQTT_connected]"
    by simp_all
next
  assume "sim7080g_publish_try rt topic d w = (Inr (), wp)"
  from sim7080g_publish_first_attempt [OF this]
  show "sim7080g_mqtt_publish fuel rt topic d w = Some (True, wp)"
    and "printed_since w wp = [Published d]"
    by simp_all
next
  assume "sim868_publish_try rt topic d w = (Inr (), vp)"
  from sim868_publish_first_attempt [OF this]
  show "sim868_mqtt_publish fuel rt topic d w = Some (True, vp)"
    and "printed_since w vp = [Published d]"
    by simp_all
next
  assume e: "(\<forall>b. bytes_decode rt b \<noteq> None) \<and> True \<notin> set (uart_faults w)"
  then have dec: "\<forall>b. bytes_decode rt b \<noteq> None" and nf: "True \<notin> set (uart_faults w)"
    by simp_all
  from send_at_normal [OF dec nf]
  show "\<exists>s' w'. send_at rt cmd tmo w = (Inr s', w')" by blast
  from send_all_normal [OF dec nf] obtain wc' where
    "send_all rt 2000 (sim7080g_connect_cmds rt) w = (Inr (), wc')" by blast
  from sim7080g_connect_first_pass [OF this]
  show "\<exists>w'. sim7080g_mqtt_connect (Suc fuel) rt w = Some w' \<and>
            printed_since w w' = [MQTT_connected]" by blast
  from send_all_normal [OF dec nf] obtain vc' where
    "send_all rt 3000 (sim868_connect_cmds rt) w = (Inr (), vc')" by blast
  from sim868_connect_first_pass [OF this]
  show "\<exists>w'. sim868_mqtt_connect (Suc fuel) rt w = Some w' \<and>
            printed_since w w' = [MQTT_connected]" by blast
  from sim7080g_publish_try_normal [OF dec nf] obtain wp' where
    "sim7080g_publish_try rt topic d w = (Inr (), wp')" by blast
  from sim7080g_publish_first_attempt [OF this]
  show "\<exists>w'. sim7080g_mqtt_publish fuel rt topic d w = Some (True, w') \<and>
            printed_since w w' = [Published d]" by blast
  from sim868_publish_try_normal [OF dec nf] obtain vp' where
    "sim868_publish_try rt topic d w = (Inr (), vp')" by blast
  from sim868_publish_first_attempt [OF this]
  show "\<exists>w'. sim868_mqtt_publish fuel rt topic d w = Some (True, w') \<and>
            printed_since w w' = [Published d]" by blast
qed

lemmas answer_simps =
  sim7080g_publish_try_def sim868_publish_try_def send_at_answered send_at_silent
  print_def sim7080g_connect_cmds_def sim868_connect_cmds_def
  error_world_def quiet_world_def plain_runtime_def CRLF_def

theorem transport_failure_never_raises_witness:
  "fst (send_at plain_runtime ''AT'' 2000 error_world) = Inr (''ERROR'' @ CRLF) \<and>
   map_option console (sim7080g_mqtt_connect (Suc 0) plain_runtime error_world) =
     Some [MQTT_connected] \<and>
   map_option console (sim868_mqtt_connect (Suc 0) plain_runtime error_world) =
     Some [MQTT_connected] \<and>
   map_option fst (sim7080g_mqtt_publish 0 plain_runtime ''t'' [1, 2] error_world) = Some True \<and>
   map_option fst (sim868_mqtt_publish 0 plain_runtime ''t'' [1, 2] error_world) = Some True \<and>
   (\<forall>b. bytes_decode plain_runtime b \<noteq> None) \<and> True \<notin> set (uart_faults error_world)"
proof -
  let ?rt = plain_runtime
  define w1 where "w1 = snd (uart_write (Text (''AT'' @ CRLF)) error_world)"
  define w2 where "w2 = snd (send_at_loop (ticks w1) 2000 [] w1)"
  define wc where "wc = snd (send_all ?rt 2000 (sim7080g_connect_cmds ?rt) error_world)"
  define vc where "vc = snd (send_all ?rt 3000 (sim868_connect_cmds ?rt) error_world)"
  define wp where "wp = snd (sim7080g_publish_try ?rt ''t'' [1, 2] error_world)"
  define vp where "vp = snd (sim868_publish_try ?rt ''t'' [1, 2] error_world)"
  have h1: "uart_write (Text (''AT'' @ CRLF)) error_world = (Inr (), w1)"
    unfolding w1_def by (simp add: uart_write_ok error_world_def quiet_world_def)
  have h2: "send_at_loop (ticks w1) 2000 [] w1 = (''ERROR'' @ CRLF, w2)"
    unfolding w2_def w1_def
    by (simp add: uart_write_ok send_at_loop_answered error_world_def quiet_world_def CRLF_def)
  have h3: "bytes_decode ?rt (''ERROR'' @ CRLF) = Some (''ERROR'' @ CRLF)"
    by (simp add: plain_runtime_def)
  have h4: "send_all ?rt 2000 (sim7080g_connect_cmds ?rt) error_world = (Inr (), wc)"
    unfolding wc_def by (simp add: answer_simps)
  have h5: "send_all ?rt 3000 (sim868_connect_cmds ?rt) error_world = (Inr (), vc)"
    unfolding vc_def by (simp add: answer_simps)
  have h6: "sim7080g_publish_try ?rt ''t'' [1, 2] error_world = (Inr (), wp)"
    unfolding wp_def by (simp add: answer_simps uart_write_ok)
  have h7: "sim868_publish_try ?rt ''t'' [1, 2] error_world = (Inr (), vp)"
    unfolding vp_def by (simp add: answer_simps uart_write_ok)
  have h8: "(\<forall>b. bytes_decode ?rt b \<noteq> None) \<and> True \<notin> set (uart_faults error_world)"
    by (simp add: plain_runtime_def error_world_def quiet_world_def)
  have c: "console error_world = []" by (simp add: error_world_def quiet_world_def)
  from transport_failure_never_raises [where cmd = "''AT''" and w = error_world and ?w1.0 = w1
         and tmo = 2000 and resp = "''ERROR'' @ CRLF" and ?w2.0 = w2 and rt = ?rt
         and s = "''ERROR'' @ CRLF" and wc = wc and fuel = 0 and vc = vc and topic = "''t''"
         and d = "[1, 2]" and wp = wp and vp = vp]
       h1 h2 h3 h4 h5 h6 h7 h8
  have r: "send_at ?rt ''AT'' 2000 error_world = (Inr (''ERROR'' @ CRLF), w2)"
    "sim7080g_mqtt_connect (Suc 0) ?rt error_world = Some (print MQTT_connected wc)"
    "printed_since error_world (print MQTT_connected wc) = [MQTT_connected]"
    "sim868_mqtt_connect (Suc 0) ?rt error_world = Some (print MQTT_connected vc)"
    "printed_since error_world (print MQTT_connected vc) = [MQTT_connected]"
    "sim7080g_mqtt_publish 0 ?rt ''t'' [1, 2] error_world = Some (True, wp)"
    "sim868_mqtt_publish 0 ?rt ''t'' [1, 2] error_world = Some (True, vp)"
    by blast+
  from r(3,5) c have "console (print MQTT_connected wc) = [MQTT_connected]"
    "console (print MQTT_connected vc) = [MQTT_connected]"
    by (simp_all add: printed_since_def)
  with r h8 show ?thesis by simp
qed

subsection \<open>Waiting for the network\<close>

lemma invalid_at_Suc:
  "invalid_at (Suc j) rt w =
     invalid_at j rt (py_sleep 5000 (print Waiting_for_network (snd (nb_iot_check_signal rt w))))"
  by (simp add: invalid_at_def rssi_at_def)

lemma wait_network_invalid_step:
  assumes "invalid_at 0 rt w"
  shows "nb_iot_wait_network (Suc fuel) rt w =
           nb_iot_wait_network fuel rt (after_polls (Suc 0) rt w)"
proof -
  obtain u w1 where c: "nb_iot_check_signal rt w = (u, w1)"
    by (cases "nb_iot_check_signal rt w")
  with assms obtain r where "u = Inr r" "\<not> (0 < r \<and> r < 99)"
    by (cases u) (auto simp: invalid_at_def rssi_at_def)
  with c show ?thesis by auto
qed

lemma wait_network_skip:
  "(\<forall>j<n. invalid_at j rt w) \<Longrightarrow>
     nb_iot_wait_network (n + fuel) rt w = nb_iot_wait_network fuel rt (after_polls n rt w)"
proof (induction n arbitrary: w)
  case 0
  then show ?case by simp
next
  case (Suc n)
  let ?w1 = "py_sleep 5000 (print Waiting_for_network (snd (nb_iot_check_signal rt w)))"
  from Suc.prems have 0: "invalid_at 0 rt w" by simp
  from Suc.prems have "\<forall>j<n. invalid_at j rt ?w1"
    by (auto simp: invalid_at_Suc [symmetric])
  from Suc.IH [OF this] wait_network_invalid_step [OF 0, of "n + fuel"]
  show ?case by simp
qed

lemma wait_network_still_polling:
  "(\<forall>j<n. invalid_at j rt w) \<Longrightarrow> nb_iot_wait_network n rt w = None"
  using wait_network_skip [of n rt w 0] by simp

lemma wait_network_returns:
  assumes "\<forall>j<k. invalid_at j rt w"
      and "nb_iot_check_signal rt (after_polls k rt w) = (Inr r, w1)"
      and "0 < r" "r < 99"
  shows "nb_iot_wait_network (k + Suc n) rt w = Some (Inr (), print (Network_OK r) w1)"
  using wait_network_skip [OF assms(1), of "Suc n"] assms(2-) by simp

lemma wait_network_only_valid:
  "nb_iot_wait_network fuel rt w = Some (Inr (), w') \<Longrightarrow>
     \<exists>k<fuel. (\<forall>j<k. invalid_at j rt w) \<and>
       (\<exists>r w1. nb_iot_check_signal rt (after_polls k rt w) = (Inr r, w1) \<and>
                0 < r \<and> r < 99 \<and> w' = print (Network_OK r) w1)"
proof (induction fuel arbitrary: w)
  case 0
  then show ?case by simp
next
  case (Suc fuel)
  obtain u w1 where c: "nb_iot_check_signal rt w = (u, w1)"
    by (cases "nb_iot_check_signal rt w")
  show ?case
  proof (cases u)
    case (Inl e)
    with Suc.prems c show ?thesis by simp
  next
    case (Inr r)
    show ?thesis
    proof (cases "0 < r \<and> r < 99")
      case True
      with Suc.prems c Inr have "w' = print (Network_OK r) w1" by simp
      with c Inr True have "(\<forall>j<0. invalid_at j rt w) \<and>
       (\<exists>r w1. nb_iot_check_signal rt (after_polls 0 rt w) = (Inr r, w1) \<and>
                0 < r \<and> r < 99 \<and> w' = print (Network_OK r) w1)"
        by simp
      then show ?thesis by blast
    next
      case False
      let ?w2 = "py_sleep 5000 (print Waiting_for_network w1)"
      from False c Inr have i0: "invalid_at 0 rt w"
        by (simp add: invalid_at_def rssi_at_def)
      from Suc.prems c Inr False have "nb_iot_wait_network fuel rt ?w2 = Some (Inr (), w')"
        by simp
      from Suc.IH [OF this] obtain k r' w1' where k: "k < fuel" "\<forall>j<k. invalid_at j rt ?w2"
        "nb_iot_check_signal rt (after_polls k rt ?w2) = (Inr r', w1')"
        "0 < r'" "r' < 99" "w' = print (Network_OK r') w1'"
        by blast
      have "\<forall>j<Suc k. invalid_at j rt w"
      proof (intro allI impI)
        fix j assume "j < Suc k"
        then show "invalid_at j rt w"
          using i0 k(2) c by (cases j) (simp_all add: invalid_at_Suc)
      qed
      moreover have "nb_iot_check_signal rt (after_polls (Suc k) rt w) = (Inr r', w1')"
        using k(3) c by simp
      ultimately have "Suc k < Suc fuel \<and> (\<forall>j<Suc k. invalid_at j rt w) \<and>
       (\<exists>r w1. nb_iot_check_signal rt (after_polls (Suc k) rt w) = (Inr r, w1) \<and>
                0 < r \<and> r < 99 \<and> w' = print (Network_OK r) w1)"
        using k by blast
      then show ?thesis by blast
    qed
  qed
qed

lemma check_signal_parse_failure:
  "send_at rt ''AT+CSQ'' 2000 w = (Inr resp, w1) \<Longrightarrow> parse_rssi rt resp = Inl e \<Longrightarrow>
     nb_iot_check_signal rt w = (Inr 0, w1)"
  by (simp add: nb_iot_check_signal_def)

lemma check_signal_parsed:
  "send_at rt ''AT+CSQ'' 2000 w = (Inr resp, w1) \<Longrightarrow> parse_rssi rt resp = Inr r \<Longrightarrow>
     nb_iot_check_signal rt w = (Inr r, w1)"
  by (simp add: nb_iot_check_signal_def)

text \<open>
  Claim C7. If \<^verbatim>\<open>nb_iot_wait_network\<close> returns, then some poll read a value strictly between
  0 and 99 and every poll before it read a value outside that range; and when poll
  \<open>k\<close> is the first to read such a value, the wait returns right after it (more than
  \<open>k\<close> passes are enough). While the readings are outside the range the wait goes on:
  after \<open>m\<close> such readings it has not returned and makes poll \<open>m\<close>, five seconds
  after the one before; there is no bound on \<open>m\<close>. A response that does not parse
  reads as 0, not as an exception, and 0 and 99 are outside the range.
\<close>

theorem wait_network_polls_until_valid:
  "(nb_iot_wait_network fuel rt w = Some (Inr (), w') \<longrightarrow>
      (\<exists>k<fuel. (\<forall>j<k. invalid_at j rt w) \<and>
         (\<exists>r w1. nb_iot_check_signal rt (after_polls k rt w) = (Inr r, w1) \<and>
                  0 < r \<and> r < 99 \<and> w' = print (Network_OK r) w1))) \<and>
   ((\<forall>j<k. invalid_at j rt w) \<and>
    nb_iot_check_signal rt (after_polls k rt w) = (Inr r, wk) \<and> 0 < r \<and> r < 99 \<longrightarrow>
      nb_iot_wait_network (k + Suc n) rt w = Some (Inr (), print (Network_OK r) wk)) \<and>
   ((\<forall>j<m. invalid_at j rt w) \<longrightarrow>
      nb_iot_wait_network m rt w = None \<and>
      nb_iot_wait_network (m + n) rt w = nb_iot_wait_network n rt (after_polls m rt w)) \<and>
   (send_at rt ''AT+CSQ'' 2000 w = (Inr resp, ws) \<and> parse_rssi rt resp = Inl e \<longrightarrow>
      nb_iot_check_signal rt w = (Inr 0, ws) \<and> invalid_at 0 rt w) \<and>
   (nb_iot_check_signal rt w = (Inr q, wq) \<and> (q = 0 \<or> q = 99) \<longrightarrow> invalid_at 0 rt w)"
proof (intro conjI impI)
  assume "nb_iot_wait_network fuel rt w = Some (Inr (), w')"
  then show "\<exists>k<fuel. (\<forall>j<k. invalid_at j rt w) \<and>
         (\<exists>r w1. nb_iot_check_signal rt (after_polls k rt w) = (Inr r, w1) \<and>
                  0 < r \<and> r < 99 \<and> w' = print (Network_OK r) w1)"
    by (rule wait_network_only_valid)
next
  assume "(\<forall>j<k. invalid_at j rt w) \<and>
    nb_iot_check_signal rt (after_polls k rt w) = (Inr r, wk) \<and> 0 < r \<and> r < 99"
  then show "nb_iot_wait_network (k + Suc n) rt w = Some (Inr (), print (Network_OK r) wk)"
    using wait_network_returns [of k rt w r wk n] by blast
next
  assume a: "\<forall>j<m. invalid_at j rt w"
  then show "nb_iot_wait_network m rt w = None" by (rule wait_network_still_polling)
  from a show "nb_iot_wait_network (m + n) rt w = nb_iot_wait_network n rt (after_polls m rt w)"
    by (rule wait_network_skip)
next
  assume a: "send_at rt ''AT+CSQ'' 2000 w = (Inr resp, ws) \<and> parse_rssi rt resp = Inl e"
  then show c: "nb_iot_check_signal rt w = (Inr 0, ws)"
    using check_signal_parse_failure by blast
  then show "invalid_at 0 rt w" by (simp add: invalid_at_def rssi_at_def)
next
  assume "nb_iot_check_signal rt w = (Inr q, wq) \<and> (q = 0 \<or> q = 99)"
  then show "invalid_at 0 rt w" by (auto simp: invalid_at_def rssi_at_def)
qed

lemma concat_replicate_Nil: "concat (replicate n []) = []"
  by (induction n) auto

lemma poll_answered:
  assumes "rx_buf w = []" "rx_script w = resp # rest"
      and "bytes_in ''OK'' resp \<or> bytes_in ''ERROR'' resp"
      and "uart_faults w = []" "bytes_decode rt resp = Some s"
  shows "nb_iot_check_signal rt w =
           (Inr (case parse_rssi rt s of Inl e \<Rightarrow> 0 | Inr r \<Rightarrow> r),
            w\<lparr>ticks := ticks w + 100, rx_buf := [], rx_script := rest,
              uart_tx := uart_tx w @ [Text (''AT+CSQ'' @ CRLF)], uart_faults := []\<rparr>)"
  using assms
  by (simp add: nb_iot_check_signal_def send_at_answered split: sum.splits)

lemma poll_then_wait:
  assumes "rx_buf w = []" "rx_script w = resp # replicate 50 [] @ rest"
      and "bytes_in ''OK'' resp \<or> bytes_in ''ERROR'' resp"
      and "uart_faults w = []" "bytes_decode rt resp = Some s"
  shows "rx_buf (after_polls (Suc 0) rt w) = []"
    and "rx_script (after_polls (Suc 0) rt w) = rest"
    and "uart_faults (after_polls (Suc 0) rt w) = []"
    and "console (after_polls (Suc 0) rt w) = console w @ [Waiting_for_network]"
  using poll_answered [OF assms(1,2,3,4,5)]
  by (simp_all add: py_sleep_def print_def concat_replicate_Nil)

lemma parse_rssi_examples:
  "parse_rssi plain_runtime (csq ''0,0'') = Inr 0"
  "parse_rssi plain_runtime (csq ''99,99'') = Inr 99"
  "parse_rssi plain_runtime (''ERROR'' @ CRLF) = Inl IndexError"
  "parse_rssi plain_runtime (csq ''15,99'') = Inr 15"
  by (simp_all add: parse_rssi_def csq_def CRLF_def strip_def is_space_def
        plain_runtime_def plain_int_def)

lemma csq_marker: "bytes_in ''OK'' (csq v)"
  by (induction v) (simp_all add: csq_def CRLF_def)

lemma invalid_at_shift:
  "invalid_at (Suc j) rt w = invalid_at j rt (after_polls (Suc 0) rt w)"
  by (simp add: invalid_at_def rssi_at_def)

theorem wait_network_polls_until_valid_witness:
  "nb_iot_wait_network 3 plain_runtime signal_world = None \<and>
   map_option fst (nb_iot_wait_network 4 plain_runtime signal_world) = Some (Inr ()) \<and>
   map_option (console \<circ> snd) (nb_iot_wait_network 4 plain_runtime signal_world) =
     Some [Waiting_for_network, Waiting_for_network, Waiting_for_network, Network_OK 15] \<and>
   invalid_at 0 plain_runtime signal_world \<and>
   invalid_at 1 plain_runtime signal_world \<and>
   invalid_at 2 plain_runtime signal_world \<and>
   rssi_at 2 plain_runtime signal_world = Inr 0 \<and>
   rssi_at 3 plain_runtime signal_world = Inr 15"
proof -
  let ?rt = plain_runtime
  define a1 where "a1 = after_polls (Suc 0) ?rt signal_world"
  define a2 where "a2 = after_polls (Suc 0) ?rt a1"
  define a3 where "a3 = after_polls (Suc 0) ?rt a2"
  define w0 where "w0 = snd (nb_iot_check_signal ?rt signal_world)"
  define w1 where "w1 = snd (nb_iot_check_signal ?rt a1)"
  define w2 where "w2 = snd (nb_iot_check_signal ?rt a2)"
  define w3 where "w3 = snd (nb_iot_check_signal ?rt a3)"
  define el where "el = ''ERROR'' @ CRLF"
  have pe: "parse_rssi ?rt el = Inl IndexError"
    unfolding el_def by (rule parse_rssi_examples)
  have dec: "bytes_decode ?rt b = Some b" for b by (simp add: plain_runtime_def)
  have e: "bytes_in ''OK'' el \<or> bytes_in ''ERROR'' el"
    by (simp add: el_def CRLF_def)
  have s0: "rx_buf signal_world = []"
    "rx_script signal_world = csq ''0,0'' # replicate 50 [] @ csq ''99,99'' # replicate 50 []
                     @ el # replicate 50 [] @ [csq ''15,99'']"
    "uart_faults signal_world = []" "console signal_world = []"
    by (simp_all add: signal_world_def quiet_world_def el_def)
  have m: "bytes_in ''OK'' (csq v) \<or> bytes_in ''ERROR'' (csq v)" for v
    by (simp add: csq_marker)
  have c0: "nb_iot_check_signal ?rt signal_world = (Inr 0, w0)"
    unfolding w0_def
    using poll_answered [OF s0(1,2) m s0(3) dec] by (simp add: parse_rssi_examples)
  note s1 = poll_then_wait [OF s0(1,2) m s0(3) dec, folded a1_def]
  have c1: "nb_iot_check_signal ?rt a1 = (Inr 99, w1)"
    unfolding w1_def
    using poll_answered [OF s1(1) _ m s1(3) dec] s1(2) by (simp add: parse_rssi_examples)
  note s2 = poll_then_wait [OF s1(1,2) m s1(3) dec, folded a2_def]
  have c2: "nb_iot_check_signal ?rt a2 = (Inr 0, w2)"
    unfolding w2_def
    using poll_answered [OF s2(1) _ e s2(3) dec] s2(2) by (simp add: pe)
  have t2: "send_at ?rt ''AT+CSQ'' 2000 a2 = (Inr el, w2)"
    unfolding w2_def
    using s2 e
    by (simp add: nb_iot_check_signal_def send_at_answered dec pe)
  note s3 = poll_then_wait [OF s2(1,2) e s2(3) dec, folded a3_def]
  have c3: "nb_iot_check_signal ?rt a3 = (Inr 15, w3)"
    unfolding w3_def
    using poll_answered [OF s3(1) _ m s3(3) dec] s3(2) by (simp add: parse_rssi_examples)
  have p1: "after_polls (Suc 0) ?rt signal_world = a1" by (simp add: a1_def)
  have p2: "after_polls 2 ?rt signal_world = a2"
    by (simp add: numeral_2_eq_2 a1_def a2_def)
  have p3: "after_polls 3 ?rt signal_world = a3"
    by (simp add: numeral_3_eq_3 a1_def a2_def a3_def)
  note T = wait_network_polls_until_valid
  from T [where w = a1 and rt = ?rt and q = 99 and wq = w1] c1
  have j1: "invalid_at 0 ?rt a1" by blast
  from T [where w = a2 and rt = ?rt and resp = el and ws = w2 and e = IndexError]
       t2 pe
  have j2: "invalid_at 0 ?rt a2" by blast
  from T [where w = signal_world and rt = ?rt and q = 0 and wq = w0] c0
  have i0: "invalid_at 0 ?rt signal_world" by blast
  have "invalid_at (Suc 0) ?rt signal_world = invalid_at 0 ?rt a1"
    unfolding a1_def by (rule invalid_at_shift)
  with j1 have i1: "invalid_at 1 ?rt signal_world" by simp
  have "invalid_at (Suc (Suc 0)) ?rt signal_world = invalid_at (Suc 0) ?rt a1"
    unfolding a1_def by (rule invalid_at_shift)
  also have "\<dots> = invalid_at 0 ?rt a2"
    unfolding a2_def by (rule invalid_at_shift)
  finally have i2: "invalid_at 2 ?rt signal_world"
    using j2 by (simp add: numeral_2_eq_2)
  have all: "\<forall>j<3. invalid_at j ?rt signal_world"
  proof (intro allI impI)
    fix j :: nat assume "j < 3"
    then have "j = 0 \<or> j = 1 \<or> j = 2" by arith
    with i0 i1 i2 show "invalid_at j ?rt signal_world" by blast
  qed
  from T [where w = signal_world and rt = ?rt and m = 3] all
  have r3: "nb_iot_wait_network 3 ?rt signal_world = None" by blast
  from T [where w = signal_world and rt = ?rt and k = 3 and r = 15 and wk = w3 and n = 0]
       all c3 p3
  have r4: "nb_iot_wait_network 4 ?rt signal_world = Some (Inr (), print (Network_OK 15) w3)"
    by simp
  from T [where w = signal_world and rt = ?rt and fuel = 4
          and w' = "print (Network_OK 15) w3"] r4
  have "\<exists>k<4. (\<forall>j<k. invalid_at j ?rt signal_world) \<and>
         (\<exists>r w1. nb_iot_check_signal ?rt (after_polls k ?rt signal_world) = (Inr r, w1) \<and>
                  0 < r \<and> r < 99 \<and> print (Network_OK 15) w3 = print (Network_OK r) w1)"
    by blast
  have cw3: "console w3 = [Waiting_for_network, Waiting_for_network, Waiting_for_network]"
    unfolding w3_def
    using poll_answered [OF s3(1) _ m s3(3) dec] s3(2,4) s2(4) s1(4) s0(4) by simp
  have q2: "rssi_at 2 ?rt signal_world = Inr 0" by (simp add: rssi_at_def p2 c2)
  have q3: "rssi_at 3 ?rt signal_world = Inr 15" by (simp add: rssi_at_def p3 c3)
  from r3 r4 cw3 i0 i1 i2 q2 q3 show ?thesis by (simp add: print_def)
qed

subsection \<open>Senders: what a step prints\<close>

lemma step_prints_refl: "step_prints P 0 w w"
  by (simp add: step_prints_def)

lemma step_prints_same:
  "console w' = console w \<Longrightarrow> dht_script w' = dht_script w \<Longrightarrow> step_prints P 0 w w'"
  by (simp add: step_prints_def)

lemma step_prints_trans:
  assumes "step_prints P m w w1" and "step_prints P n w1 w2"
  shows "step_prints P (m + n) w w2"
proof -
  from assms obtain ls1 ls2 where
    "console w1 = console w @ ls1" "length (filter P ls1) = m"
    "console w2 = console w1 @ ls2" "length (filter P ls2) = n"
    "dht_script w2 = dht_script w"
    by (auto simp: step_prints_def)
  then have "console w2 = console w @ (ls1 @ ls2) \<and> length (filter P (ls1 @ ls2)) = m + n"
    by simp
  with \<open>dht_script w2 = dht_script w\<close> show ?thesis
    unfolding step_prints_def by blast
qed

lemma step_prints_print: "step_prints P (if P l then 1 else 0) w (print l w)"
  by (simp add: step_prints_def print_def)

lemma step_prints_sleep: "step_prints P 0 w (py_sleep ms w)"
  by (simp add: step_prints_def py_sleep_def)

lemma step_prints_count:
  "step_prints P n w w' \<Longrightarrow> length (filter P (printed_since w w')) = n"
  by (auto simp: step_prints_def printed_since_def)

lemma step_prints_dht: "step_prints P n w w' \<Longrightarrow> dht_script w' = dht_script w"
  by (simp add: step_prints_def)

lemma step_prints_send_at: "send_at rt cmd tmo w = (r, w') \<Longrightarrow> step_prints P 0 w w'"
  by (auto dest: send_at_frame intro: step_prints_same)

lemma step_prints_send_all: "send_all rt tmo cmds w = (r, w') \<Longrightarrow> step_prints P 0 w w'"
  by (auto dest: send_all_frame intro: step_prints_same)

lemma step_prints_uart_write: "uart_write x w = (r, w') \<Longrightarrow> step_prints P 0 w w'"
  by (auto dest: uart_write_frame intro: step_prints_same)

lemma step_prints_check_signal: "nb_iot_check_signal rt w = (r, w') \<Longrightarrow> step_prints P 0 w w'"
  by (auto simp: nb_iot_check_signal_def split: prod.splits sum.splits
           dest: step_prints_send_at)

lemma step_prints_sim7080g_connect:
  assumes "sim7080g_mqtt_connect fuel rt w = Some w'"
      and "\<not> P MQTT_connected" and "\<And>e. \<not> P (MQTT_connect_failed e)"
  shows "step_prints P 0 w w'"
proof -
  from sim7080g_mqtt_connect_console [OF assms(1)] obtain es where
    c: "console w' = console w @ map MQTT_connect_failed es @ [MQTT_connected]"
    and d: "dht_script w' = dht_script w"
    by blast
  have "filter P (map MQTT_connect_failed es @ [MQTT_connected]) = []"
    using assms(2,3) by (induction es) auto
  with c d show ?thesis unfolding step_prints_def by auto
qed

lemma step_prints_sim868_connect:
  assumes "sim868_mqtt_connect fuel rt w = Some w'"
      and "\<not> P MQTT_connected" and "\<And>e. \<not> P (MQTT_connect_failed e)"
  shows "step_prints P 0 w w'"
proof -
  from sim868_mqtt_connect_console [OF assms(1)] obtain es where
    c: "console w' = console w @ map MQTT_connect_failed es @ [MQTT_connected]"
    and d: "dht_script w' = dht_script w"
    by blast
  have "filter P (map MQTT_connect_failed es @ [MQTT_connected]) = []"
    using assms(2,3) by (induction es) auto
  with c d show ?thesis unfolding step_prints_def by auto
qed

text \<open>A call of \<^verbatim>\<open>mqtt_publish\<close> that returns prints one outcome line and no session line.\<close>

lemma sim7080g_publish_loop_prints:
  "sim7080g_publish_loop k fuel rt topic d w = Some (ok, w') \<Longrightarrow>
     step_prints is_publish_outcome 1 w w' \<and> step_prints is_session_line 0 w w'"
proof (induction k arbitrary: w)
  case 0
  then have "w' = print Failed_to_publish_after_3_attempts w" by simp
  then show ?case
    using step_prints_print [of is_publish_outcome Failed_to_publish_after_3_attempts w]
          step_prints_print [of is_session_line Failed_to_publish_after_3_attempts w]
    by simp
next
  case (Suc k)
  obtain u w1 where t: "sim7080g_publish_try rt topic d w = (u, w1)"
    by (cases "sim7080g_publish_try rt topic d w")
  note f = sim7080g_publish_try_frame [OF t]
  show ?case
  proof (cases u)
    case (Inr x)
    with Suc.prems t have "w' = w1" by simp
    with f Inr show ?thesis by (simp add: step_prints_def)
  next
    case (Inl e)
    with Suc.prems t obtain w2 where
      c: "sim7080g_mqtt_connect fuel rt (print (Publish_failed e) w1) = Some w2"
      and l: "sim7080g_publish_loop k fuel rt topic d (py_sleep 2000 w2) = Some (ok, w')"
      by (auto split: option.splits)
    have a: "step_prints P 0 w w1" for P using f Inl by (simp add: step_prints_def)
    have b: "step_prints is_publish_outcome 0 w1 (print (Publish_failed e) w1)"
      "step_prints is_session_line 0 w1 (print (Publish_failed e) w1)"
      using step_prints_print [of is_publish_outcome "Publish_failed e" w1]
            step_prints_print [of is_session_line "Publish_failed e" w1]
      by simp_all
    have c1: "step_prints is_publish_outcome 0 (print (Publish_failed e) w1) w2"
      "step_prints is_session_line 0 (print (Publish_failed e) w1) w2"
      by (rule step_prints_sim7080g_connect [OF c]; simp)+
    note s = step_prints_sleep [of _ w2 2000]
    from Suc.IH [OF l] have i: "step_prints is_publish_outcome 1 (py_sleep 2000 w2) w'"
      "step_prints is_session_line 0 (py_sleep 2000 w2) w'"
      by simp_all
    from step_prints_trans [OF step_prints_trans [OF step_prints_trans
           [OF step_prints_trans [OF a b(1)] c1(1)] s] i(1)]
         step_prints_trans [OF step_prints_trans [OF step_prints_trans
           [OF step_prints_trans [OF a b(2)] c1(2)] s] i(2)]
    show ?thesis by simp
  qed
qed

lemma sim868_publish_loop_prints:
  "sim868_publish_loop k fuel rt topic d w = Some (ok, w') \<Longrightarrow>
     step_prints is_publish_outcome 1 w w' \<and> step_prints is_session_line 0 w w'"
proof (induction k arbitrary: w)
  case 0
  then have "w' = print Failed_to_publish_after_3_attempts w" by simp
  then show ?case
    using step_prints_print [of is_publish_outcome Failed_to_publish_after_3_attempts w]
          step_prints_print [of is_session_line Failed_to_publish_after_3_attempts w]
    by simp
next
  case (Suc k)
  obtain u w1 where t: "sim868_publish_try rt topic d w = (u, w1)"
    by (cases "sim868_publish_try rt topic d w")
  note f = sim868_publish_try_frame [OF t]
  show ?case
  proof (cases u)
    case (Inr x)
    with Suc.prems t have "w' = w1" by simp
    with f Inr show ?thesis by (simp add: step_prints_def)
  next
    case (Inl e)
    with Suc.prems t obtain w2 where
      c: "sim868_mqtt_connect fuel rt (print (Publish_failed e) w1) = Some w2"
      and l: "sim868_publish_loop k fuel rt topic d (py_sleep 2000 w2) = Some (ok, w')"
      by (auto split: option.splits)
    have a: "step_prints P 0 w w1" for P using f Inl by (simp add: step_prints_def)
    have b: "step_prints is_publish_outcome 0 w1 (print (Publish_failed e) w1)"
      "step_prints is_session_line 0 w1 (print (Publish_failed e) w1)"
      using step_prints_print [of is_publish_outcome "Publish_failed e" w1]
            step_prints_print [of is_session_line "Publish_failed e" w1]
      by simp_all
    have c1: "step_prints is_publish_outcome 0 (print (Publish_failed e) w1) w2"
      "step_prints is_session_line 0 (print (Publish_failed e) w1) w2"
      by (rule step_prints_sim868_connect [OF c]; simp)+
    note s = step_prints_sleep [of _ w2 2000]
    from Suc.IH [OF l] have i: "step_prints is_publish_outcome 1 (py_sleep 2000 w2) w'"
      "step_prints is_session_line 0 (py_sleep 2000 w2) w'"
      by simp_all
    from step_prints_trans [OF step_prints_trans [OF step_prints_trans
           [OF step_prints_trans [OF a b(1)] c1(1)] s] i(1)]
         step_prints_trans [OF step_prints_trans [OF step_prints_trans
           [OF step_prints_trans [OF a b(2)] c1(2)] s] i(2)]
    show ?thesis by simp
  qed
qed

lemma outcome_free_prints:
  assumes "dht_script w' = dht_script w" and "console w' = console w @ ls"
      and "filter is_publish_outcome ls = []"
  shows "step_prints is_publish_outcome 0 w w'"
  using assms unfolding step_prints_def by auto

lemma nb_iot_init_console:
  assumes "nb_iot_init rt w = (r, w')"
  shows "dht_script w' = dht_script w \<and>
         (\<exists>ls. console w' = console w @ Initializing # ls \<and> filter is_publish_outcome ls = [])"
proof -
  obtain u w1 where s: "send_all rt 2000
             [''AT'', ''AT+CFUN=1'', ''AT+CGATT=1'', ''AT+CGDCONT=1,\"IP\",\"internet\"'']
             (print Initializing w) = (u, w1)"
    by (cases "send_all rt 2000
             [''AT'', ''AT+CFUN=1'', ''AT+CGATT=1'', ''AT+CGDCONT=1,\"IP\",\"internet\"'']
             (print Initializing w)")
  note f = send_all_frame [OF s]
  show ?thesis
  proof (cases u)
    case (Inl e)
    with assms s have "w' = w1" by (simp add: nb_iot_init_def)
    with f show ?thesis by (simp add: console_print sensors_print)
  next
    case (Inr x)
    with assms s have "w' = print Ready (py_sleep 2000 w1)" by (simp add: nb_iot_init_def)
    with f have "dht_script w' = dht_script w \<and> console w' = console w @ Initializing # [Ready] \<and>
        filter is_publish_outcome [Ready] = []"
      by (simp add: console_print sensors_print console_py_sleep sensors_py_sleep)
    then show ?thesis by blast
  qed
qed

lemma nb_iot_wait_network_prints:
  "nb_iot_wait_network fuel rt w = Some (r, w') \<Longrightarrow> step_prints is_publish_outcome 0 w w'"
proof (induction fuel arbitrary: w)
  case 0
  then show ?case by simp
next
  case (Suc fuel)
  obtain u w1 where c: "nb_iot_check_signal rt w = (u, w1)"
    by (cases "nb_iot_check_signal rt w")
  note a = step_prints_check_signal [OF c, of is_publish_outcome]
  show ?case
  proof (cases u)
    case (Inl e)
    with Suc.prems c a show ?thesis by simp
  next
    case (Inr rssi)
    show ?thesis
    proof (cases "0 < rssi \<and> rssi < 99")
      case True
      with Suc.prems c Inr have "w' = print (Network_OK rssi) w1" by simp
      with step_prints_trans [OF a step_prints_print [of is_publish_outcome "Network_OK rssi" w1]]
      show ?thesis by simp
    next
      case False
      let ?w2 = "py_sleep 5000 (print Waiting_for_network w1)"
      from Suc.prems c Inr False have "nb_iot_wait_network fuel rt ?w2 = Some (r, w')" by simp
      from step_prints_trans [OF step_prints_trans [OF step_prints_trans [OF a
             step_prints_print [of is_publish_outcome Waiting_for_network w1]]
             step_prints_sleep [of is_publish_outcome _ 5000]] Suc.IH [OF this]]
      show ?thesis by simp
    qed
  qed
qed

lemma sim7080g_bring_up_console:
  assumes "sim7080g_bring_up fuel rt w = Some (r, w')"
  shows "dht_script w' = dht_script w \<and>
         (\<exists>ls. console w' = console w @ Initializing # ls \<and> filter is_publish_outcome ls = [])"
proof -
  obtain u w1 where i: "nb_iot_init rt w = (u, w1)" by (cases "nb_iot_init rt w")
  from nb_iot_init_console [OF i] obtain ls1 where
    f1: "dht_script w1 = dht_script w" "console w1 = console w @ Initializing # ls1"
        "filter is_publish_outcome ls1 = []"
    by blast
  show ?thesis
  proof (cases u)
    case (Inl e)
    with assms i have "w' = w1" by (simp add: sim7080g_bring_up_def)
    with f1 show ?thesis by blast
  next
    case (Inr x)
    with assms i obtain u2 w2 where n: "nb_iot_wait_network fuel rt w1 = Some (u2, w2)"
      by (auto simp: sim7080g_bring_up_def split: option.splits)
    from nb_iot_wait_network_prints [OF n] obtain ls2 where
      f2: "dht_script w2 = dht_script w1" "console w2 = console w1 @ ls2"
          "filter is_publish_outcome ls2 = []"
      by (auto simp: step_prints_def)
    show ?thesis
    proof (cases u2)
      case (Inl e)
      with assms i Inr n have "w' = w2" by (simp add: sim7080g_bring_up_def)
      with f1 f2 have "dht_script w' = dht_script w \<and>
          console w' = console w @ Initializing # (ls1 @ ls2) \<and>
          filter is_publish_outcome (ls1 @ ls2) = []"
        by simp
      then show ?thesis by blast
    next
      case (Inr y)
      with assms i \<open>u = Inr x\<close> n have c: "sim7080g_mqtt_connect fuel rt w2 = Some w'"
        by (auto simp: sim7080g_bring_up_def split: option.splits)
      from step_prints_sim7080g_connect [OF c, of is_publish_outcome] obtain ls3 where
        f3: "dht_script w' = dht_script w2" "console w' = console w2 @ ls3"
            "filter is_publish_outcome ls3 = []"
        by (auto simp: step_prints_def)
      with f1 f2 have "dht_script w' = dht_script w \<and>
          console w' = console w @ Initializing # (ls1 @ ls2 @ ls3) \<and>
          filter is_publish_outcome (ls1 @ ls2 @ ls3) = []"
        by simp
      then show ?thesis by blast
    qed
  qed
qed

lemma read_sensor_observation:
  "dht_script w = Some (t, h) # rest \<Longrightarrow>
     read_sensor w = (Some (t, h), w\<lparr>dht_script := rest\<rparr>)"
  by (simp add: read_sensor_def)

lemma read_cpu_temp_frame:
  "console (snd (read_cpu_temp w)) = console w"
  "dht_script (snd (read_cpu_temp w)) = dht_script w"
  "uart_tx (snd (read_cpu_temp w)) = uart_tx w"
  by (simp_all add: read_cpu_temp_def Let_def split: list.splits)

subsection \<open>Senders: change suppression\<close>

lemma sim868_cycle_unchanged:
  assumes "dht_script w = Some (t, h) # rest"
      and "last_temp st = Some t" "last_hum st = Some h"
  shows "sim868_cycle fuel rt st w =
           Some (st, py_sleep (CHECK_INTERVAL * 1000) (snd (read_cpu_temp (w\<lparr>dht_script := rest\<rparr>))))"
  using assms
  by (simp add: sim868_cycle_def read_sensor_observation split: prod.splits)

lemma sim868_cycle_changed:
  assumes "dht_script w = Some (t, h) # rest"
      and "last_temp st \<noteq> Some t \<or> last_hum st \<noteq> Some h"
  shows "sim868_cycle fuel rt st w =
           (case sim868_mqtt_publish fuel rt (MQTT_TOPIC rt)
                   (encode_sensor t h (fst (read_cpu_temp (w\<lparr>dht_script := rest\<rparr>))))
                   (snd (read_cpu_temp (w\<lparr>dht_script := rest\<rparr>))) of
              None \<Rightarrow> None
            | Some (ok, w3) \<Rightarrow>
                Some (st\<lparr>last_temp := Some t, last_hum := Some h\<rparr>,
                      py_sleep (CHECK_INTERVAL * 1000) w3))"
  using assms
  by (auto simp: sim868_cycle_def read_sensor_observation split: prod.splits option.splits)

lemma sim7080g_read_publish_unchanged:
  assumes "dht_script w = Some (t, h) # rest"
      and "last_temp st = Some t" "last_hum st = Some h"
  shows "sim7080g_read_publish fuel rt st w =
           Some (st, py_sleep (CHECK_INTERVAL * 1000) (snd (read_cpu_temp (w\<lparr>dht_script := rest\<rparr>))))"
  using assms
  by (simp add: sim7080g_read_publish_def read_sensor_observation split: prod.splits)

lemma sim7080g_read_publish_changed:
  assumes "dht_script w = Some (t, h) # rest"
      and "last_temp st \<noteq> Some t \<or> last_hum st \<noteq> Some h"
  shows "sim7080g_read_publish fuel rt st w =
           (case sim7080g_mqtt_publish fuel rt (MQTT_TOPIC rt)
                   (encode_sensor t h (fst (read_cpu_temp (w\<lparr>dht_script := rest\<rparr>))))
                   (snd (read_cpu_temp (w\<lparr>dht_script := rest\<rparr>))) of
              None \<Rightarrow> None
            | Some (ok, w3) \<Rightarrow>
                Some (st\<lparr>last_temp := Some t, last_hum := Some h,
                         last_cpu := Some (fst (read_cpu_temp (w\<lparr>dht_script := rest\<rparr>)))\<rparr>,
                      py_sleep (CHECK_INTERVAL * 1000) w3))"
  using assms
  by (auto simp: sim7080g_read_publish_def read_sensor_observation split: prod.splits option.splits)

lemma step_prints_after_read:
  "step_prints P 0 (w\<lparr>dht_script := rest\<rparr>) (snd (read_cpu_temp (w\<lparr>dht_script := rest\<rparr>)))"
  by (rule step_prints_same) (simp_all add: read_cpu_temp_frame)

text \<open>
  A pass that observes \<open>(t, h)\<close> and returns: it has printed one publish outcome if
  \<open>(t, h)\<close> differs from the last values and none otherwise, and the last values are
  now \<open>(t, h)\<close>.
\<close>

lemma sim868_cycle_result:
  assumes obs: "dht_script w = Some (t, h) # rest"
      and r: "sim868_cycle fuel rt st w = Some (st', w')"
  shows "last_temp st' = Some t \<and> last_hum st' = Some h \<and> dht_script w' = rest \<and>
         (\<exists>ls. console w' = console w @ ls \<and>
            length (filter is_publish_outcome ls) =
              (if last_temp st \<noteq> Some t \<or> last_hum st \<noteq> Some h then 1 else 0))"
proof (cases "last_temp st \<noteq> Some t \<or> last_hum st \<noteq> Some h")
  case False
  with sim868_cycle_unchanged [OF obs, of st fuel rt] r
  have "st' = st" "w' = py_sleep (CHECK_INTERVAL * 1000) (snd (read_cpu_temp (w\<lparr>dht_script := rest\<rparr>)))"
    by simp_all
  with False show ?thesis
    by (simp add: console_py_sleep sensors_py_sleep read_cpu_temp_frame)
next
  case True
  let ?w2 = "snd (read_cpu_temp (w\<lparr>dht_script := rest\<rparr>))"
  from sim868_cycle_changed [OF obs True, of fuel rt] r obtain ok w3 where
    p: "sim868_mqtt_publish fuel rt (MQTT_TOPIC rt)
          (encode_sensor t h (fst (read_cpu_temp (w\<lparr>dht_script := rest\<rparr>)))) ?w2 = Some (ok, w3)"
    and e: "st' = st\<lparr>last_temp := Some t, last_hum := Some h\<rparr>"
           "w' = py_sleep (CHECK_INTERVAL * 1000) w3"
    by (auto split: option.splits)
  from p have "step_prints is_publish_outcome 1 ?w2 w3"
    unfolding sim868_mqtt_publish_def by (auto dest: sim868_publish_loop_prints)
  then obtain ls where "dht_script w3 = dht_script ?w2" "console w3 = console ?w2 @ ls"
    "length (filter is_publish_outcome ls) = 1"
    by (auto simp: step_prints_def)
  with e True show ?thesis
    by (simp add: console_py_sleep sensors_py_sleep read_cpu_temp_frame)
qed

lemma sim7080g_read_publish_result:
  assumes obs: "dht_script w = Some (t, h) # rest"
      and r: "sim7080g_read_publish fuel rt st w = Some (st', w')"
  shows "last_temp st' = Some t \<and> last_hum st' = Some h \<and> dht_script w' = rest \<and>
         (\<exists>ls. console w' = console w @ ls \<and>
            length (filter is_publish_outcome ls) =
              (if last_temp st \<noteq> Some t \<or> last_hum st \<noteq> Some h then 1 else 0))"
proof (cases "last_temp st \<noteq> Some t \<or> last_hum st \<noteq> Some h")
  case False
  with sim7080g_read_publish_unchanged [OF obs, of st fuel rt] r
  have "st' = st" "w' = py_sleep (CHECK_INTERVAL * 1000) (snd (read_cpu_temp (w\<lparr>dht_script := rest\<rparr>)))"
    by simp_all
  with False show ?thesis
    by (simp add: console_py_sleep sensors_py_sleep read_cpu_temp_frame)
next
  case True
  let ?w2 = "snd (read_cpu_temp (w\<lparr>dht_script := rest\<rparr>))"
  let ?c = "fst (read_cpu_temp (w\<lparr>dht_script := rest\<rparr>))"
  from sim7080g_read_publish_changed [OF obs True, of fuel rt] r obtain ok w3 where
    p: "sim7080g_mqtt_publish fuel rt (MQTT_TOPIC rt) (encode_sensor t h ?c) ?w2 = Some (ok, w3)"
    and e: "st' = st\<lparr>last_temp := Some t, last_hum := Some h, last_cpu := Some ?c\<rparr>"
           "w' = py_sleep (CHECK_INTERVAL * 1000) w3"
    by (auto split: option.splits)
  from p have "step_prints is_publish_outcome 1 ?w2 w3"
    unfolding sim7080g_mqtt_publish_def by (auto dest: sim7080g_publish_loop_prints)
  then obtain ls where "dht_script w3 = dht_script ?w2" "console w3 = console ?w2 @ ls"
    "length (filter is_publish_outcome ls) = 1"
    by (auto simp: step_prints_def)
  with e True show ?thesis
    by (simp add: console_py_sleep sensors_py_sleep read_cpu_temp_frame)
qed

text \<open>The first half of a pass of the NB-IoT loop prints no publish outcome.\<close>

lemma sim7080g_cycle_result:
  assumes obs: "dht_script w = Some (t, h) # rest"
      and r: "sim7080g_cycle fuel rt st w = Some (Inr st', w')"
  shows "last_temp st' = Some t \<and> last_hum st' = Some h \<and> dht_script w' = rest \<and>
         (\<exists>ls. console w' = console w @ ls \<and>
            length (filter is_publish_outcome ls) =
              (if last_temp st \<noteq> Some t \<or> last_hum st \<noteq> Some h then 1 else 0))"
proof -
  obtain u w1 where c: "nb_iot_check_signal rt w = (u, w1)"
    by (cases "nb_iot_check_signal rt w")
  from r c obtain rssi where u: "u = Inr rssi"
    by (cases u) (auto simp: sim7080g_cycle_def)
  note a = step_prints_check_signal [OF c, of is_publish_outcome]
  have "\<exists>w2. step_prints is_publish_outcome 0 w w2 \<and>
          sim7080g_read_publish fuel rt st w2 = Some (st', w')"
  proof (cases "rssi = 0 \<or> rssi = 99")
    case False
    with r c u have "sim7080g_read_publish fuel rt st w1 = Some (st', w')"
      by (auto simp: sim7080g_cycle_def split: option.splits)
    with a show ?thesis by blast
  next
    case True
    with r c u obtain w2 where
      b: "sim7080g_bring_up fuel rt (print Network_lost w1) = Some (Inr (), w2)"
      and p: "sim7080g_read_publish fuel rt st w2 = Some (st', w')"
      by (auto simp: sim7080g_cycle_def split: option.splits sum.splits)
    from sim7080g_bring_up_console [OF b] obtain ls where
      "dht_script w2 = dht_script (print Network_lost w1)"
      "console w2 = console (print Network_lost w1) @ Initializing # ls"
      "filter is_publish_outcome ls = []"
      by blast
    then have "step_prints is_publish_outcome 0 (print Network_lost w1) w2"
      by (intro outcome_free_prints [where ls = "Initializing # ls"]) simp_all
    from step_prints_trans [OF step_prints_trans [OF a
           step_prints_print [of is_publish_outcome Network_lost w1]] this] p
    show ?thesis by auto
  qed
  then obtain w2 where s: "step_prints is_publish_outcome 0 w w2"
    and p: "sim7080g_read_publish fuel rt st w2 = Some (st', w')"
    by blast
  from s obs have obs2: "dht_script w2 = Some (t, h) # rest" by (simp add: step_prints_def)
  from sim7080g_read_publish_result [OF obs2 p] obtain ls2 where
    q: "last_temp st' = Some t" "last_hum st' = Some h" "dht_script w' = rest"
       "console w' = console w2 @ ls2"
       "length (filter is_publish_outcome ls2) =
              (if last_temp st \<noteq> Some t \<or> last_hum st \<noteq> Some h then 1 else 0)"
    by blast
  from s obtain ls1 where "console w2 = console w @ ls1" "filter is_publish_outcome ls1 = []"
    by (auto simp: step_prints_def)
  with q have "console w' = console w @ (ls1 @ ls2) \<and>
      length (filter is_publish_outcome (ls1 @ ls2)) =
              (if last_temp st \<noteq> Some t \<or> last_hum st \<noteq> Some h then 1 else 0)"
    by simp
  with q(1-3) show ?thesis by blast
qed

text \<open>Two passes in a row that observe the same \<open>(t, h)\<close>: at most one publish.\<close>

lemma sim868_two_equal_observations:
  assumes obs: "dht_script w = Some (t, h) # Some (t, h) # rest"
      and r: "sim868_loop 2 fuel rt st w = Some (st'', w'')"
  shows "length (filter is_publish_outcome (printed_since w w'')) \<le> 1"
proof -
  from r obtain st' w' where c1: "sim868_cycle fuel rt st w = Some (st', w')"
    and c2: "sim868_cycle fuel rt st' w' = Some (st'', w'')"
    by (auto simp: numeral_2_eq_2 split: option.splits)
  from sim868_cycle_result [OF obs c1] obtain ls1 where
    a: "last_temp st' = Some t" "last_hum st' = Some h" "dht_script w' = Some (t, h) # rest"
       "console w' = console w @ ls1" "length (filter is_publish_outcome ls1) \<le> 1"
    by (auto split: if_splits)
  from sim868_cycle_result [OF a(3) c2] a(1,2) obtain ls2 where
    "console w'' = console w' @ ls2" "length (filter is_publish_outcome ls2) = 0"
    by auto
  with a show ?thesis by (simp add: printed_since_def)
qed

lemma sim7080g_two_equal_observations:
  assumes obs: "dht_script w = Some (t, h) # Some (t, h) # rest"
      and r: "sim7080g_loop 2 fuel rt st w = Some (Inr st'', w'')"
  shows "length (filter is_publish_outcome (printed_since w w'')) \<le> 1"
proof -
  from r obtain st' w' where c1: "sim7080g_cycle fuel rt st w = Some (Inr st', w')"
    and c2: "sim7080g_cycle fuel rt st' w' = Some (Inr st'', w'')"
    by (auto simp: numeral_2_eq_2 split: option.splits sum.splits)
  from sim7080g_cycle_result [OF obs c1] obtain ls1 where
    a: "last_temp st' = Some t" "last_hum st' = Some h" "dht_script w' = Some (t, h) # rest"
       "console w' = console w @ ls1" "length (filter is_publish_outcome ls1) \<le> 1"
    by (auto split: if_splits)
  from sim7080g_cycle_result [OF a(3) c2] a(1,2) obtain ls2 where
    "console w'' = console w' @ ls2" "length (filter is_publish_outcome ls2) = 0"
    by auto
  with a show ?thesis by (simp add: printed_since_def)
qed

text \<open>
  Claim C3, for both senders, on a pass of the main loop that observes the
  temperature \<open>t\<close> and the humidity \<open>h\<close>. When both equal the last values, the pass
  publishes nothing and prints nothing, whatever the CPU temperature is. When one of
  them differs, the pass calls \<^verbatim>\<open>mqtt_publish\<close> with the encoded frame and, whatever
  \<^verbatim>\<open>mqtt_publish\<close> returns, the last values become \<open>(t, h)\<close>. So a pass that returns has
  printed one publish outcome if \<open>(t, h)\<close> differed and none otherwise, and two passes
  in a row that observe the same \<open>(t, h)\<close> print at most one.
\<close>

theorem change_suppression:
  assumes obs: "dht_script w = Some (t, h) # rest"
  shows
   "(last_temp st = Some t \<and> last_hum st = Some h \<longrightarrow>
       sim868_cycle fuel rt st w =
         Some (st, py_sleep (CHECK_INTERVAL * 1000)
                     (snd (read_cpu_temp (w\<lparr>dht_script := rest\<rparr>)))) \<and>
       printed_since w (py_sleep (CHECK_INTERVAL * 1000)
                     (snd (read_cpu_temp (w\<lparr>dht_script := rest\<rparr>)))) = []) \<and>
    (last_temp st \<noteq> Some t \<or> last_hum st \<noteq> Some h \<longrightarrow>
       sim868_cycle fuel rt st w =
         (case sim868_mqtt_publish fuel rt (MQTT_TOPIC rt)
                 (encode_sensor t h (fst (read_cpu_temp (w\<lparr>dht_script := rest\<rparr>))))
                 (snd (read_cpu_temp (w\<lparr>dht_script := rest\<rparr>))) of
            None \<Rightarrow> None
          | Some (ok, w3) \<Rightarrow>
              Some (st\<lparr>last_temp := Some t, last_hum := Some h\<rparr>,
                    py_sleep (CHECK_INTERVAL * 1000) w3))) \<and>
    (sim868_cycle fuel rt st w = Some (st', w') \<longrightarrow>
       last_temp st' = Some t \<and> last_hum st' = Some h \<and>
       length (filter is_publish_outcome (printed_since w w')) =
         (if last_temp st \<noteq> Some t \<or> last_hum st \<noteq> Some h then 1 else 0)) \<and>
    (rest = Some (t, h) # rest' \<and> sim868_loop 2 fuel rt st w = Some (st'', w'') \<longrightarrow>
       length (filter is_publish_outcome (printed_since w w'')) \<le> 1) \<and>
    (last_temp s7 = Some t \<and> last_hum s7 = Some h \<longrightarrow>
       sim7080g_read_publish fuel rt s7 w =
         Some (s7, py_sleep (CHECK_INTERVAL * 1000)
                     (snd (read_cpu_temp (w\<lparr>dht_script := rest\<rparr>)))) \<and>
       printed_since w (py_sleep (CHECK_INTERVAL * 1000)
                     (snd (read_cpu_temp (w\<lparr>dht_script := rest\<rparr>)))) = []) \<and>
    (last_temp s7 \<noteq> Some t \<or> last_hum s7 \<noteq> Some h \<longrightarrow>
       sim7080g_read_publish fuel rt s7 w =
         (case sim7080g_mqtt_publish fuel rt (MQTT_TOPIC rt)
                 (encode_sensor t h (fst (read_cpu_temp (w\<lparr>dht_script := rest\<rparr>))))
                 (snd (read_cpu_temp (w\<lparr>dht_script := rest\<rparr>))) of
            None \<Rightarrow> None
          | Some (ok, w3) \<Rightarrow>
              Some (s7\<lparr>last_temp := Some t, last_hum := Some h,
                       last_cpu := Some (fst (read_cpu_temp (w\<lparr>dht_script := rest\<rparr>)))\<rparr>,
                    py_sleep (CHECK_INTERVAL * 1000) w3))) \<and>
    (sim7080g_cycle fuel rt s7 w = Some (Inr s7', v') \<longrightarrow>
       last_temp s7' = Some t \<and> last_hum s7' = Some h \<and>
       length (filter is_publish_outcome (printed_since w v')) =
         (if last_temp s7 \<noteq> Some t \<or> last_hum s7 \<noteq> Some h then 1 else 0)) \<and>
    (rest = Some (t, h) # rest' \<and> sim7080g_loop 2 fuel rt s7 w = Some (Inr s7'', v'') \<longrightarrow>
       length (filter is_publish_outcome (printed_since w v'')) \<le> 1)"
proof (intro conjI impI)
  let ?w2 = "snd (read_cpu_temp (w\<lparr>dht_script := rest\<rparr>))"
  have quiet: "printed_since w (py_sleep (CHECK_INTERVAL * 1000) ?w2) = []"
    by (simp add: printed_since_def console_py_sleep read_cpu_temp_frame)
  {
    assume a: "last_temp st = Some t \<and> last_hum st = Some h"
    then show "sim868_cycle fuel rt st w = Some (st, py_sleep (CHECK_INTERVAL * 1000) ?w2)"
      using sim868_cycle_unchanged [OF obs] by blast
    show "printed_since w (py_sleep (CHECK_INTERVAL * 1000) ?w2) = []" by (rule quiet)
  }
  {
    assume a: "last_temp s7 = Some t \<and> last_hum s7 = Some h"
    then show "sim7080g_read_publish fuel rt s7 w =
        Some (s7, py_sleep (CHECK_INTERVAL * 1000) ?w2)"
      using sim7080g_read_publish_unchanged [OF obs] by blast
    show "printed_since w (py_sleep (CHECK_INTERVAL * 1000) ?w2) = []" by (rule quiet)
  }
  {
    assume "last_temp st \<noteq> Some t \<or> last_hum st \<noteq> Some h"
    then show "sim868_cycle fuel rt st w =
         (case sim868_mqtt_publish fuel rt (MQTT_TOPIC rt)
                 (encode_sensor t h (fst (read_cpu_temp (w\<lparr>dht_script := rest\<rparr>)))) ?w2 of
            None \<Rightarrow> None
          | Some (ok, w3) \<Rightarrow>
              Some (st\<lparr>last_temp := Some t, last_hum := Some h\<rparr>,
                    py_sleep (CHECK_INTERVAL * 1000) w3))"
      by (rule sim868_cycle_changed [OF obs])
  }
  {
    assume "last_temp s7 \<noteq> Some t \<or> last_hum s7 \<noteq> Some h"
    then show "sim7080g_read_publish fuel rt s7 w =
         (case sim7080g_mqtt_publish fuel rt (MQTT_TOPIC rt)
                 (encode_sensor t h (fst (read_cpu_temp (w\<lparr>dht_script := rest\<rparr>)))) ?w2 of
            None \<Rightarrow> None
          | Some (ok, w3) \<Rightarrow>
              Some (s7\<lparr>last_temp := Some t, last_hum := Some h,
                       last_cpu := Some (fst (read_cpu_temp (w\<lparr>dht_script := rest\<rparr>)))\<rparr>,
                    py_sleep (CHECK_INTERVAL * 1000) w3))"
      by (rule sim7080g_read_publish_changed [OF obs])
  }
  {
    assume r: "sim868_cycle fuel rt st w = Some (st', w')"
    from sim868_cycle_result [OF obs r]
    show "last_temp st' = Some t" "last_hum st' = Some h"
      "length (filter is_publish_outcome (printed_since w w')) =
         (if last_temp st \<noteq> Some t \<or> last_hum st \<noteq> Some h then 1 else 0)"
      by (auto simp: printed_since_def)
  }
  {
    assume r: "sim7080g_cycle fuel rt s7 w = Some (Inr s7', v')"
    from sim7080g_cycle_result [OF obs r]
    show "last_temp s7' = Some t" "last_hum s7' = Some h"
      "length (filter is_publish_outcome (printed_since w v')) =
         (if last_temp s7 \<noteq> Some t \<or> last_hum s7 \<noteq> Some h then 1 else 0)"
      by (auto simp: printed_since_def)
  }
  {
    assume "rest = Some (t, h) # rest' \<and> sim868_loop 2 fuel rt st w = Some (st'', w'')"
    with obs show "length (filter is_publish_outcome (printed_since w w'')) \<le> 1"
      using sim868_two_equal_observations [of w t h rest' fuel rt st st'' w''] by simp
  }
  {
    assume "rest = Some (t, h) # rest' \<and> sim7080g_loop 2 fuel rt s7 w = Some (Inr s7'', v'')"
    with obs show "length (filter is_publish_outcome (printed_since w v'')) \<le> 1"
      using sim7080g_two_equal_observations [of w t h rest' fuel rt s7 s7'' v''] by simp
  }
qed

lemma plain_runtime_simps:
  "bytes_decode plain_runtime b = Some b"
  "DEVICE_ID plain_runtime = ''e661a4d1''"
  by (simp_all add: plain_runtime_def)

lemma ok_marker: "bytes_in ''OK'' (''OK'' @ CRLF)"
  by (simp add: CRLF_def)

lemmas pass_simps =
  sim868_cycle_def sim7080g_cycle_def sim7080g_read_publish_def read_sensor_def
  read_cpu_temp_def sim868_mqtt_publish_def sim7080g_mqtt_publish_def
  numeral_3_eq_3 numeral_2_eq_2 sim868_publish_try_def sim7080g_publish_try_def
  send_at_silent send_at_answered uart_write_ok print_def py_sleep_def
  CHECK_INTERVAL_def MQTT_TOPIC_def nb_iot_check_signal_def parse_rssi_examples
  csq_marker ok_marker concat_replicate_Nil quiet_world_def plain_runtime_simps
  observed_world_868_def observed_world_7080_def Let_def

lemma observed_868_pass_returns:
  "\<exists>x. sim868_cycle 0 plain_runtime \<lparr>last_temp = None, last_hum = None\<rparr>
         observed_world_868 = Some x"
  by (simp add: pass_simps)

lemma observed_868_loop_returns:
  "\<exists>x. sim868_loop 2 0 plain_runtime \<lparr>last_temp = None, last_hum = None\<rparr>
         observed_world_868 = Some x"
  by (simp add: pass_simps)

lemma observed_7080_pass_returns:
  "\<exists>x. sim7080g_cycle 0 plain_runtime \<lparr>last_temp = None, last_hum = None, last_cpu = None\<rparr>
         observed_world_7080 = Some (Inr (fst x), snd x)"
  by (simp add: pass_simps)

lemma observed_7080_loop_returns:
  "\<exists>x. sim7080g_loop 2 0 plain_runtime \<lparr>last_temp = None, last_hum = None, last_cpu = None\<rparr>
         observed_world_7080 = Some (Inr (fst x), snd x)"
  by (simp add: pass_simps)

theorem change_suppression_witness:
  "(\<exists>st' w'. sim868_cycle 0 plain_runtime \<lparr>last_temp = None, last_hum = None\<rparr>
                observed_world_868 = Some (st', w') \<and>
       last_temp st' = Some (43 / 2) \<and> last_hum st' = Some 40 \<and>
       length (filter is_publish_outcome (printed_since observed_world_868 w')) = 1) \<and>
   (\<exists>st'' w''. sim868_loop 2 0 plain_runtime \<lparr>last_temp = None, last_hum = None\<rparr>
                observed_world_868 = Some (st'', w'') \<and>
       length (filter is_publish_outcome (printed_since observed_world_868 w'')) \<le> 1) \<and>
   (\<exists>w'. sim868_cycle 0 plain_runtime \<lparr>last_temp = Some (43 / 2), last_hum = Some 40\<rparr>
                observed_world_868 =
              Some (\<lparr>last_temp = Some (43 / 2), last_hum = Some 40\<rparr>, w') \<and>
       printed_since observed_world_868 w' = []) \<and>
   (\<exists>s' v'. sim7080g_cycle 0 plain_runtime
                \<lparr>last_temp = None, last_hum = None, last_cpu = None\<rparr>
                observed_world_7080 = Some (Inr s', v') \<and>
       last_temp s' = Some (43 / 2) \<and> last_hum s' = Some 40 \<and>
       length (filter is_publish_outcome (printed_since observed_world_7080 v')) = 1) \<and>
   (\<exists>s'' v''. sim7080g_loop 2 0 plain_runtime
                \<lparr>last_temp = None, last_hum = None, last_cpu = None\<rparr>
                observed_world_7080 = Some (Inr s'', v'') \<and>
       length (filter is_publish_outcome (printed_since observed_world_7080 v'')) \<le> 1) \<and>
   (\<exists>v'. sim7080g_read_publish 0 plain_runtime
                \<lparr>last_temp = Some (43 / 2), last_hum = Some 40, last_cpu = None\<rparr>
                observed_world_7080 =
              Some (\<lparr>last_temp = Some (43 / 2), last_hum = Some 40, last_cpu = None\<rparr>, v') \<and>
       printed_since observed_world_7080 v' = [])"
proof -
  let ?rt = plain_runtime
  let ?st0 = "\<lparr>last_temp = None, last_hum = None\<rparr>"
  let ?st1 = "\<lparr>last_temp = Some (43 / 2), last_hum = Some 40\<rparr> :: last_sent"
  let ?s0 = "\<lparr>last_temp = None, last_hum = None, last_cpu = None\<rparr>"
  let ?s1 = "\<lparr>last_temp = Some (43 / 2), last_hum = Some 40, last_cpu = None\<rparr>"
  let ?rest = "[Some (43 / 2 :: rat, 40 :: rat)]"
  have o8: "dht_script observed_world_868 = Some (43 / 2, 40) # ?rest"
    by (simp add: observed_world_868_def quiet_world_def)
  have o7: "dht_script observed_world_7080 = Some (43 / 2, 40) # ?rest"
    by (simp add: observed_world_7080_def quiet_world_def)
  from observed_868_pass_returns obtain x1 w1 where
    c1: "sim868_cycle 0 ?rt ?st0 observed_world_868 = Some (x1, w1)" by auto
  from observed_868_loop_returns obtain x2 w2 where
    c2: "sim868_loop 2 0 ?rt ?st0 observed_world_868 = Some (x2, w2)" by auto
  from observed_7080_pass_returns obtain y1 v1 where
    c3: "sim7080g_cycle 0 ?rt ?s0 observed_world_7080 = Some (Inr y1, v1)" by auto
  from observed_7080_loop_returns obtain y2 v2 where
    c4: "sim7080g_loop 2 0 ?rt ?s0 observed_world_7080 = Some (Inr y2, v2)" by auto
  note A = change_suppression [OF o8, where st = ?st0 and fuel = 0 and rt = ?rt
      and st' = x1 and w' = w1 and rest' = "[]" and st'' = x2 and w'' = w2]
  note B = change_suppression [OF o8, where st = ?st1 and fuel = 0 and rt = ?rt]
  note C = change_suppression [OF o7, where ?s7.0 = ?s0 and fuel = 0 and rt = ?rt
      and s7' = y1 and v' = v1 and rest' = "[]" and s7'' = y2 and v'' = v2]
  note D = change_suppression [OF o7, where ?s7.0 = ?s1 and fuel = 0 and rt = ?rt]
  note A3 = A [THEN conjunct2, THEN conjunct2, THEN conjunct1, rule_format, OF c1]
  note A4 = A [THEN conjunct2, THEN conjunct2, THEN conjunct2, THEN conjunct1, rule_format]
  note B1 = B [THEN conjunct1, rule_format]
  note C7 = C [THEN conjunct2, THEN conjunct2, THEN conjunct2, THEN conjunct2, THEN conjunct2,
               THEN conjunct2, THEN conjunct1, rule_format, OF c3]
  note C8 = C [THEN conjunct2, THEN conjunct2, THEN conjunct2, THEN conjunct2, THEN conjunct2,
               THEN conjunct2, THEN conjunct2, rule_format]
  note D5 = D [THEN conjunct2, THEN conjunct2, THEN conjunct2, THEN conjunct2, THEN conjunct1,
               rule_format]
  from A3 have r1: "last_temp x1 = Some (43 / 2) \<and> last_hum x1 = Some 40 \<and>
       length (filter is_publish_outcome (printed_since observed_world_868 w1)) = 1"
    by simp
  have r2: "length (filter is_publish_outcome (printed_since observed_world_868 w2)) \<le> 1"
    by (rule A4) (simp add: c2)
  have "sim868_cycle 0 ?rt ?st1 observed_world_868 =
          Some (?st1, py_sleep (CHECK_INTERVAL * 1000)
                     (snd (read_cpu_temp (observed_world_868\<lparr>dht_script := ?rest\<rparr>)))) \<and>
        printed_since observed_world_868 (py_sleep (CHECK_INTERVAL * 1000)
                     (snd (read_cpu_temp (observed_world_868\<lparr>dht_script := ?rest\<rparr>)))) = []"
    by (rule B1) simp
  then have r3: "\<exists>w'. sim868_cycle 0 ?rt ?st1 observed_world_868 = Some (?st1, w') \<and>
       printed_since observed_world_868 w' = []"
    by blast
  from C7 have r4: "last_temp y1 = Some (43 / 2) \<and> last_hum y1 = Some 40 \<and>
       length (filter is_publish_outcome (printed_since observed_world_7080 v1)) = 1"
    by simp
  have r5: "length (filter is_publish_outcome (printed_since observed_world_7080 v2)) \<le> 1"
    by (rule C8) (simp add: c4)
  have "sim7080g_read_publish 0 ?rt ?s1 observed_world_7080 =
          Some (?s1, py_sleep (CHECK_INTERVAL * 1000)
                     (snd (read_cpu_temp (observed_world_7080\<lparr>dht_script := ?rest\<rparr>)))) \<and>
        printed_since observed_world_7080 (py_sleep (CHECK_INTERVAL * 1000)
                     (snd (read_cpu_temp (observed_world_7080\<lparr>dht_script := ?rest\<rparr>)))) = []"
    by (rule D5) simp
  then have r6: "\<exists>v'. sim7080g_read_publish 0 ?rt ?s1 observed_world_7080 = Some (?s1, v') \<and>
       printed_since observed_world_7080 v' = []"
    by blast
  from c1 r1 have q1: "\<exists>st' w'. sim868_cycle 0 ?rt ?st0 observed_world_868 = Some (st', w') \<and>
       last_temp st' = Some (43 / 2) \<and> last_hum st' = Some 40 \<and>
       length (filter is_publish_outcome (printed_since observed_world_868 w')) = 1"
    by blast
  from c2 r2 have q2: "\<exists>st'' w''. sim868_loop 2 0 ?rt ?st0 observed_world_868 = Some (st'', w'') \<and>
       length (filter is_publish_outcome (printed_since observed_world_868 w'')) \<le> 1"
    by blast
  from c3 r4 have q4: "\<exists>s' v'. sim7080g_cycle 0 ?rt ?s0 observed_world_7080 = Some (Inr s', v') \<and>
       last_temp s' = Some (43 / 2) \<and> last_hum s' = Some 40 \<and>
       length (filter is_publish_outcome (printed_since observed_world_7080 v')) = 1"
    by blast
  from c4 r5 have q5: "\<exists>s'' v''. sim7080g_loop 2 0 ?rt ?s0 observed_world_7080 = Some (Inr s'', v'') \<and>
       length (filter is_publish_outcome (printed_since observed_world_7080 v'')) \<le> 1"
    by blast
  show ?thesis
    by (intro conjI) (rule q1, rule q2, rule r3, rule q4, rule q5, rule r6)

qed

subsection \<open>Senders: the two variants compared\<close>




















end
